theory Spec2Isabelle
  imports Complex_Main "HOL-Library.Word"
begin

section \<open>Shared types of the wrapper (wrapper.h)\<close>

text \<open>
  The C enumeration \<open>OrtoolsStatus\<close> of wrapper.h, in the order of its declaration
  (numeric values 0 to 6).
\<close>

datatype OrtoolsStatus =
    ORTOOLS_STATUS_UNKNOWN
  | ORTOOLS_STATUS_OPTIMAL
  | ORTOOLS_STATUS_FEASIBLE
  | ORTOOLS_STATUS_INFEASIBLE
  | ORTOOLS_STATUS_UNBOUNDED
  | ORTOOLS_STATUS_MODEL_INVALID
  | ORTOOLS_STATUS_ERROR

type_synonym int32_t = "32 word"
type_synonym int64_t = "64 word"

text \<open>
  What the C++ leaves undefined is a value of the model: an array or vector read outside
  its bounds, a pointer to no live object, and a conversion from \<open>double\<close> to
  \<open>int64_t\<close> of a value that \<open>int64_t\<close> cannot hold.
\<close>

datatype fault = OutOfBounds | InvalidPointer | ConversionOutOfRange

section \<open>Status normalizers\<close>

text \<open>
  A native status is the numeric code of the engine's enumeration. The enumerators are
  declared in the engines' headers, which wrapper.cc includes; their values are those of
  \<open>sat::CpSolverStatus\<close> (cp_model.proto) and of \<open>MPSolver::ResultStatus\<close>
  (linear_solver.h). The \<open>switch\<close> of the source compares the code with the named
  enumerators in turn and falls to \<open>default\<close> for every other code.
\<close>

definition CpSolverStatus_UNKNOWN :: int where "CpSolverStatus_UNKNOWN = 0"
definition CpSolverStatus_MODEL_INVALID :: int where "CpSolverStatus_MODEL_INVALID = 1"
definition CpSolverStatus_FEASIBLE :: int where "CpSolverStatus_FEASIBLE = 2"
definition CpSolverStatus_INFEASIBLE :: int where "CpSolverStatus_INFEASIBLE = 3"
definition CpSolverStatus_OPTIMAL :: int where "CpSolverStatus_OPTIMAL = 4"

definition MPSolver_OPTIMAL :: int where "MPSolver_OPTIMAL = 0"
definition MPSolver_FEASIBLE :: int where "MPSolver_FEASIBLE = 1"
definition MPSolver_INFEASIBLE :: int where "MPSolver_INFEASIBLE = 2"
definition MPSolver_UNBOUNDED :: int where "MPSolver_UNBOUNDED = 3"
definition MPSolver_ABNORMAL :: int where "MPSolver_ABNORMAL = 4"
definition MPSolver_MODEL_INVALID :: int where "MPSolver_MODEL_INVALID = 5"
definition MPSolver_NOT_SOLVED :: int where "MPSolver_NOT_SOLVED = 6"

definition convert_cp_status :: "int \<Rightarrow> OrtoolsStatus" where
  "convert_cp_status status =
     (if status = CpSolverStatus_OPTIMAL then ORTOOLS_STATUS_OPTIMAL
      else if status = CpSolverStatus_FEASIBLE then ORTOOLS_STATUS_FEASIBLE
      else if status = CpSolverStatus_INFEASIBLE then ORTOOLS_STATUS_INFEASIBLE
      else if status = CpSolverStatus_MODEL_INVALID then ORTOOLS_STATUS_MODEL_INVALID
      else ORTOOLS_STATUS_UNKNOWN)"

definition convert_lp_status :: "int \<Rightarrow> OrtoolsStatus" where
  "convert_lp_status status =
     (if status = MPSolver_OPTIMAL then ORTOOLS_STATUS_OPTIMAL
      else if status = MPSolver_FEASIBLE then ORTOOLS_STATUS_FEASIBLE
      else if status = MPSolver_INFEASIBLE then ORTOOLS_STATUS_INFEASIBLE
      else if status = MPSolver_UNBOUNDED then ORTOOLS_STATUS_UNBOUNDED
      else ORTOOLS_STATUS_ERROR)"

section \<open>Floating-point values at the boundary\<close>

text \<open>
  A \<open>double\<close> of the interface: \<open>Finite s m e\<close> stands for the number
  \<open>(-1)^s * m * 2^e\<close> (in IEEE binary64, \<open>m < 2^53\<close> and \<open>-1074 \<le> e \<le> 971\<close>),
  \<open>Infinity s\<close> for the two infinities and \<open>NaN\<close> for a not-a-number. The wrapper only
  compares a double with zero, passes it on, or converts it to \<open>int64_t\<close>.
\<close>

datatype double = Finite bool nat int | Infinity bool | NaN

definition is_binary64 :: "double \<Rightarrow> bool" where
  "is_binary64 d =
     (case d of Finite s m e \<Rightarrow> m < 2 ^ 53 \<and> - 1074 \<le> e \<and> e \<le> 971 | _ \<Rightarrow> True)"

text \<open>The real number a finite double stands for.\<close>

definition double_real :: "bool \<Rightarrow> nat \<Rightarrow> int \<Rightarrow> real" where
  "double_real s m e = (if s then - 1 else 1) * real m * 2 powi e"

text \<open>The comparison \<open>d > 0\<close> of C++: false for NaN, for both zeros and for negatives.\<close>

definition double_gt_zero :: "double \<Rightarrow> bool" where
  "double_gt_zero d =
     (case d of Finite s m e \<Rightarrow> \<not> s \<and> 0 < m | Infinity s \<Rightarrow> \<not> s | NaN \<Rightarrow> False)"

text \<open>
  \<open>static_cast<int64_t>(d)\<close>: the value truncated towards zero; the behaviour is undefined
  when the truncated value is not representable in \<open>int64_t\<close> (also infinities and NaN).
\<close>

definition double_trunc :: "bool \<Rightarrow> nat \<Rightarrow> int \<Rightarrow> int" where
  "double_trunc s m e =
     (let mag = (if 0 \<le> e then int m * 2 ^ nat e else int m div 2 ^ nat (- e))
      in if s then - mag else mag)"

definition int64_of_double :: "double \<Rightarrow> fault + int64_t" where
  "int64_of_double d =
     (case d of
        Finite s m e \<Rightarrow>
          (let v = double_trunc s m e
           in if - (2 ^ 63) \<le> v \<and> v < 2 ^ 63 then Inr (word_of_int v)
              else Inl ConversionOutOfRange)
      | Infinity s \<Rightarrow> Inl ConversionOutOfRange
      | NaN \<Rightarrow> Inl ConversionOutOfRange)"

section \<open>The discrete engine, as the wrapper drives it\<close>

text \<open>
  A \<open>const char*\<close> argument: \<open>None\<close> is the null pointer, \<open>Some s\<close> points to the
  characters \<open>s\<close> before the terminating NUL.
\<close>

type_synonym cstring = "string option"

text \<open>
  The engine's builder (\<open>sat::CpModelBuilder\<close>) is the model it has been handed so far:
  the variables in creation order, the constraints in the order added, and the objective set
  last. An \<open>IntVar\<close> is the position of a variable in the engine's model. A
  \<open>sat::LinearExpr\<close> is the sequence of its terms and a constant: \<open>var * coeff\<close> is the
  one-term expression, and \<open>+=\<close> appends the terms of its argument and adds the constants.
\<close>

type_synonym IntVar = nat

record IntegerVariableProto =
  var_domain :: "int64_t \<times> int64_t"
  var_name :: string

record LinearExpr =
  expr_terms :: "(IntVar \<times> int64_t) list"
  expr_constant :: int64_t

datatype LinearRelation = LessOrEqual | GreaterOrEqual | Equality

datatype ConstraintProto =
    LinearConstraint LinearExpr LinearRelation int64_t
  | AllDifferentConstraint "IntVar list"

datatype ObjectiveProto = MinimizeObjective LinearExpr | MaximizeObjective LinearExpr

record CpModelProto =
  proto_variables :: "IntegerVariableProto list"
  proto_constraints :: "ConstraintProto list"
  proto_objective :: "ObjectiveProto option"

definition sat_CpModelBuilder_init :: CpModelProto where
  "sat_CpModelBuilder_init =
     \<lparr>proto_variables = [], proto_constraints = [], proto_objective = None\<rparr>"

definition NewIntVar :: "CpModelProto \<Rightarrow> int64_t \<times> int64_t \<Rightarrow> IntVar \<times> CpModelProto" where
  "NewIntVar b domain =
     (length (proto_variables b),
      b\<lparr>proto_variables := proto_variables b @ [\<lparr>var_domain = domain, var_name = []\<rparr>]\<rparr>)"

definition NewBoolVar :: "CpModelProto \<Rightarrow> IntVar \<times> CpModelProto" where
  "NewBoolVar b =
     (length (proto_variables b),
      b\<lparr>proto_variables := proto_variables b @ [\<lparr>var_domain = (0, 1), var_name = []\<rparr>]\<rparr>)"

definition WithName :: "CpModelProto \<Rightarrow> IntVar \<Rightarrow> string \<Rightarrow> CpModelProto" where
  "WithName b var name =
     b\<lparr>proto_variables :=
         (proto_variables b)[var := (proto_variables b ! var)\<lparr>var_name := name\<rparr>]\<rparr>"

definition LinearExpr_init :: LinearExpr where
  "LinearExpr_init = \<lparr>expr_terms = [], expr_constant = 0\<rparr>"

definition LinearExpr_term :: "IntVar \<Rightarrow> int64_t \<Rightarrow> LinearExpr" where
  "LinearExpr_term var coeff = \<lparr>expr_terms = [(var, coeff)], expr_constant = 0\<rparr>"

definition LinearExpr_add :: "LinearExpr \<Rightarrow> LinearExpr \<Rightarrow> LinearExpr" where
  "LinearExpr_add expr other =
     \<lparr>expr_terms = expr_terms expr @ expr_terms other,
      expr_constant = expr_constant expr + expr_constant other\<rparr>"

definition AddLinear ::
  "CpModelProto \<Rightarrow> LinearExpr \<Rightarrow> LinearRelation \<Rightarrow> int64_t \<Rightarrow> CpModelProto" where
  "AddLinear b expr rel rhs =
     b\<lparr>proto_constraints := proto_constraints b @ [LinearConstraint expr rel rhs]\<rparr>"

definition AddAllDifferent :: "CpModelProto \<Rightarrow> IntVar list \<Rightarrow> CpModelProto" where
  "AddAllDifferent b vs =
     b\<lparr>proto_constraints := proto_constraints b @ [AllDifferentConstraint vs]\<rparr>"

definition Minimize :: "CpModelProto \<Rightarrow> LinearExpr \<Rightarrow> CpModelProto" where
  "Minimize b expr = b\<lparr>proto_objective := Some (MinimizeObjective expr)\<rparr>"

definition Maximize :: "CpModelProto \<Rightarrow> LinearExpr \<Rightarrow> CpModelProto" where
  "Maximize b expr = b\<lparr>proto_objective := Some (MaximizeObjective expr)\<rparr>"

definition Build :: "CpModelProto \<Rightarrow> CpModelProto" where
  "Build b = b"

text \<open>
  What a linear expression means to the engine: its value under an assignment of the
  variables, and the total coefficient it gives to one variable.
\<close>

definition eval_LinearExpr :: "(IntVar \<Rightarrow> int) \<Rightarrow> LinearExpr \<Rightarrow> int" where
  "eval_LinearExpr val expr =
     (\<Sum>(v, c) \<leftarrow> expr_terms expr. sint c * val v) + sint (expr_constant expr)"

definition coefficient_of :: "LinearExpr \<Rightarrow> IntVar \<Rightarrow> int" where
  "coefficient_of expr var = (\<Sum>(v, c) \<leftarrow> expr_terms expr. if v = var then sint c else 0)"

section \<open>Discrete model builder (wrapper.cc)\<close>

record CpModelBuilder =
  builder :: CpModelProto
  vars :: "IntVar list"

definition CpModelBuilder_init :: CpModelBuilder where
  "CpModelBuilder_init = \<lparr>builder = sat_CpModelBuilder_init, vars = []\<rparr>"

text \<open>
  A function that takes a \<open>CpModelBuilder*\<close> is modelled on the object pointed to and
  returns the object as the call leaves it. The returned index is
  \<open>static_cast<int32_t>(model->vars.size())\<close>: the size reduced modulo \<open>2^32\<close> and
  read as a signed 32-bit value (\<open>sint\<close>).
\<close>

definition cpmodel_new_int_var ::
  "CpModelBuilder \<Rightarrow> int64_t \<Rightarrow> int64_t \<Rightarrow> cstring \<Rightarrow> int32_t \<times> CpModelBuilder" where
  "cpmodel_new_int_var model lb ub name =
     (let (var, b) = NewIntVar (builder model) (lb, ub);
          b = (case name of
                 None \<Rightarrow> b
               | Some s \<Rightarrow> if s \<noteq> [] then WithName b var s else b);
          idx = (word_of_nat (length (vars model)) :: int32_t)
      in (idx, model\<lparr>builder := b, vars := vars model @ [var]\<rparr>))"

definition cpmodel_new_bool_var :: "CpModelBuilder \<Rightarrow> cstring \<Rightarrow> int32_t \<times> CpModelBuilder" where
  "cpmodel_new_bool_var model name =
     (let (bvar, b) = NewBoolVar (builder model);
          b = (case name of
                 None \<Rightarrow> b
               | Some s \<Rightarrow> if s \<noteq> [] then WithName b bvar s else b);
          idx = (word_of_nat (length (vars model)) :: int32_t)
      in (idx, model\<lparr>builder := b, vars := vars model @ [bvar]\<rparr>))"

text \<open>
  \<open>model->vars[k]\<close> with \<open>k\<close> an \<open>int32_t\<close>: the index is converted to \<open>size_t\<close>, so
  a negative one is as far out of bounds as one beyond the size; both are undefined.
\<close>

definition vars_at :: "CpModelBuilder \<Rightarrow> int32_t \<Rightarrow> fault + IntVar" where
  "vars_at model k =
     (if 0 \<le> sint k \<and> nat (sint k) < length (vars model)
      then Inr (vars model ! nat (sint k)) else Inl OutOfBounds)"

text \<open>
  The arrays \<open>var_indices\<close> and \<open>coeffs\<close> are the lists of their elements; reading
  element \<open>i\<close> of an array with no more than \<open>i\<close> elements is undefined.
\<close>

function build_linear_expr_loop ::
  "CpModelBuilder \<Rightarrow> int32_t list \<Rightarrow> int64_t list \<Rightarrow> nat \<Rightarrow> nat \<Rightarrow> LinearExpr
     \<Rightarrow> fault + LinearExpr" where
  "build_linear_expr_loop model var_indices coeffs num_vars i expr =
     (if i < num_vars then
        (if i < length var_indices \<and> i < length coeffs then
           (case vars_at model (var_indices ! i) of
              Inl f \<Rightarrow> Inl f
            | Inr var \<Rightarrow>
                build_linear_expr_loop model var_indices coeffs num_vars (Suc i)
                  (LinearExpr_add expr (LinearExpr_term var (coeffs ! i))))
         else Inl OutOfBounds)
      else Inr expr)"
  by pat_completeness auto
termination
  by (relation "measure (\<lambda>(model, var_indices, coeffs, num_vars, i, expr). num_vars - i)") auto

declare build_linear_expr_loop.simps [simp del]

definition build_linear_expr ::
  "CpModelBuilder \<Rightarrow> int32_t list \<Rightarrow> int64_t list \<Rightarrow> nat \<Rightarrow> fault + LinearExpr" where
  "build_linear_expr model var_indices coeffs num_vars =
     build_linear_expr_loop model var_indices coeffs num_vars 0 LinearExpr_init"

definition cpmodel_add_linear_le ::
  "CpModelBuilder \<Rightarrow> int32_t list \<Rightarrow> int64_t list \<Rightarrow> nat \<Rightarrow> int64_t
     \<Rightarrow> fault + CpModelBuilder" where
  "cpmodel_add_linear_le model var_indices coeffs num_vars rhs =
     (case build_linear_expr model var_indices coeffs num_vars of
        Inl f \<Rightarrow> Inl f
      | Inr expr \<Rightarrow> Inr (model\<lparr>builder := AddLinear (builder model) expr LessOrEqual rhs\<rparr>))"

definition cpmodel_add_linear_ge ::
  "CpModelBuilder \<Rightarrow> int32_t list \<Rightarrow> int64_t list \<Rightarrow> nat \<Rightarrow> int64_t
     \<Rightarrow> fault + CpModelBuilder" where
  "cpmodel_add_linear_ge model var_indices coeffs num_vars rhs =
     (case build_linear_expr model var_indices coeffs num_vars of
        Inl f \<Rightarrow> Inl f
      | Inr expr \<Rightarrow> Inr (model\<lparr>builder := AddLinear (builder model) expr GreaterOrEqual rhs\<rparr>))"

definition cpmodel_add_linear_eq ::
  "CpModelBuilder \<Rightarrow> int32_t list \<Rightarrow> int64_t list \<Rightarrow> nat \<Rightarrow> int64_t
     \<Rightarrow> fault + CpModelBuilder" where
  "cpmodel_add_linear_eq model var_indices coeffs num_vars rhs =
     (case build_linear_expr model var_indices coeffs num_vars of
        Inl f \<Rightarrow> Inl f
      | Inr expr \<Rightarrow> Inr (model\<lparr>builder := AddLinear (builder model) expr Equality rhs\<rparr>))"

function all_different_loop ::
  "CpModelBuilder \<Rightarrow> int32_t list \<Rightarrow> nat \<Rightarrow> nat \<Rightarrow> IntVar list \<Rightarrow> fault + IntVar list" where
  "all_different_loop model var_indices num_vars i vs =
     (if i < num_vars then
        (if i < length var_indices then
           (case vars_at model (var_indices ! i) of
              Inl f \<Rightarrow> Inl f
            | Inr var \<Rightarrow> all_different_loop model var_indices num_vars (Suc i) (vs @ [var]))
         else Inl OutOfBounds)
      else Inr vs)"
  by pat_completeness auto
termination
  by (relation "measure (\<lambda>(model, var_indices, num_vars, i, vs). num_vars - i)") auto

declare all_different_loop.simps [simp del]

definition cpmodel_add_all_different ::
  "CpModelBuilder \<Rightarrow> int32_t list \<Rightarrow> nat \<Rightarrow> fault + CpModelBuilder" where
  "cpmodel_add_all_different model var_indices num_vars =
     (case all_different_loop model var_indices num_vars 0 [] of
        Inl f \<Rightarrow> Inl f
      | Inr vs \<Rightarrow> Inr (model\<lparr>builder := AddAllDifferent (builder model) vs\<rparr>))"

definition cpmodel_minimize ::
  "CpModelBuilder \<Rightarrow> int32_t list \<Rightarrow> int64_t list \<Rightarrow> nat \<Rightarrow> fault + CpModelBuilder" where
  "cpmodel_minimize model var_indices coeffs num_vars =
     (case build_linear_expr model var_indices coeffs num_vars of
        Inl f \<Rightarrow> Inl f
      | Inr expr \<Rightarrow> Inr (model\<lparr>builder := Minimize (builder model) expr\<rparr>))"

definition cpmodel_maximize ::
  "CpModelBuilder \<Rightarrow> int32_t list \<Rightarrow> int64_t list \<Rightarrow> nat \<Rightarrow> fault + CpModelBuilder" where
  "cpmodel_maximize model var_indices coeffs num_vars =
     (case build_linear_expr model var_indices coeffs num_vars of
        Inl f \<Rightarrow> Inl f
      | Inr expr \<Rightarrow> Inr (model\<lparr>builder := Maximize (builder model) expr\<rparr>))"

section \<open>Discrete solve and result (wrapper.cc)\<close>

text \<open>
  \<open>sat::SatParameters\<close>: a field that was never set is \<open>None\<close>; the engine then runs
  without a wall-clock cutoff.
\<close>

record SatParameters =
  max_time_in_seconds :: "double option"

definition SatParameters_init :: SatParameters where
  "SatParameters_init = \<lparr>max_time_in_seconds = None\<rparr>"

definition set_max_time_in_seconds :: "SatParameters \<Rightarrow> double \<Rightarrow> SatParameters" where
  "set_max_time_in_seconds params t = params\<lparr>max_time_in_seconds := Some t\<rparr>"

record sat_CpSolverResponse =
  status :: int
  objective_value :: double
  solution :: "int64_t list"
  wall_time :: double

record CpSolverResponse =
  response :: sat_CpSolverResponse
  model :: CpModelProto

text \<open>
  \<open>cpmodel_solve\<close> allocates, so it is modelled over a store of the live objects: a
  pointer is the position of its object in the store, \<open>new\<close> appends an object and returns
  its position, and a pointer to no object of the store is invalid. The engine's
  \<open>sat::SolveWithParameters\<close> is a parameter of the model.
\<close>

type_synonym addr = nat

record Store =
  cp_models :: "CpModelBuilder list"
  cp_responses :: "CpSolverResponse list"

definition object_at :: "'a list \<Rightarrow> addr \<Rightarrow> 'a option" where
  "object_at objs p = (if p < length objs then Some (objs ! p) else None)"

definition cpmodel_new :: "Store \<Rightarrow> addr \<times> Store" where
  "cpmodel_new st =
     (length (cp_models st), st\<lparr>cp_models := cp_models st @ [CpModelBuilder_init]\<rparr>)"

text \<open>A call \<open>f(model, ...)\<close> of a builder function through the pointer \<open>model\<close>.\<close>

definition call_on_model ::
  "Store \<Rightarrow> addr \<Rightarrow> (CpModelBuilder \<Rightarrow> fault + CpModelBuilder) \<Rightarrow> fault + Store" where
  "call_on_model st p f =
     (case object_at (cp_models st) p of
        None \<Rightarrow> Inl InvalidPointer
      | Some m \<Rightarrow>
          (case f m of
             Inl e \<Rightarrow> Inl e
           | Inr m' \<Rightarrow> Inr (st\<lparr>cp_models := (cp_models st)[p := m']\<rparr>)))"

definition cpmodel_solve ::
  "(CpModelProto \<Rightarrow> SatParameters \<Rightarrow> sat_CpSolverResponse) \<Rightarrow> Store \<Rightarrow> addr \<Rightarrow> double
     \<Rightarrow> fault + (addr \<times> Store)" where
  "cpmodel_solve SolveWithParameters st p time_limit_seconds =
     (case object_at (cp_models st) p of
        None \<Rightarrow> Inl InvalidPointer
      | Some m \<Rightarrow>
          (let params = SatParameters_init;
               params = (if double_gt_zero time_limit_seconds
                         then set_max_time_in_seconds params time_limit_seconds
                         else params);
               result_model = Build (builder m);
               result = \<lparr>response = SolveWithParameters result_model params,
                         model = result_model\<rparr>
           in Inr (length (cp_responses st),
                   st\<lparr>cp_responses := cp_responses st @ [result]\<rparr>)))"

definition cpresponse_status :: "CpSolverResponse \<Rightarrow> OrtoolsStatus" where
  "cpresponse_status r = convert_cp_status (status (response r))"

definition cpresponse_objective_value :: "CpSolverResponse \<Rightarrow> fault + int64_t" where
  "cpresponse_objective_value r = int64_of_double (objective_value (response r))"

definition cpresponse_value :: "CpSolverResponse \<Rightarrow> int32_t \<Rightarrow> fault + int64_t" where
  "cpresponse_value r var_index =
     (if 0 \<le> sint var_index \<and> nat (sint var_index) < length (solution (response r))
      then Inr (solution (response r) ! nat (sint var_index)) else Inl OutOfBounds)"

definition cpresponse_wall_time :: "CpSolverResponse \<Rightarrow> double" where
  "cpresponse_wall_time r = wall_time (response r)"

text \<open>A result whose engine response has the given native status and objective value.\<close>

definition response_with_double :: "int \<Rightarrow> double \<Rightarrow> CpSolverResponse" where
  "response_with_double st d =
     \<lparr>response = \<lparr>status = st, objective_value = d, solution = [],
                   wall_time = Finite False 0 0\<rparr>,
      model = sat_CpModelBuilder_init\<rparr>"

section \<open>Linear/MIP solver (wrapper.cc)\<close>

text \<open>
  The selector \<open>OrtoolsLpSolverType\<close> of wrapper.h is a C enumeration: the callee receives
  an integer, which need not be one of the four enumerators.
\<close>

definition ORTOOLS_LP_GLOP :: int where "ORTOOLS_LP_GLOP = 0"
definition ORTOOLS_LP_CLP :: int where "ORTOOLS_LP_CLP = 1"
definition ORTOOLS_MIP_CBC :: int where "ORTOOLS_MIP_CBC = 2"
definition ORTOOLS_MIP_SCIP :: int where "ORTOOLS_MIP_SCIP = 3"

datatype OptimizationProblemType =
    GLOP_LINEAR_PROGRAMMING
  | CLP_LINEAR_PROGRAMMING
  | CBC_MIXED_INTEGER_PROGRAMMING
  | SCIP_MIXED_INTEGER_PROGRAMMING

text \<open>
  The engine's \<open>MPSolver\<close> is what it has been handed: its name and backend, the variables
  and rows made so far with the arguments of the call that made them, the coefficients set,
  and the direction of the objective. An \<open>MPVariable*\<close> or \<open>MPConstraint*\<close> is the
  position of the object in the solver.
\<close>

record MPVariable =
  mpvar_lb :: double
  mpvar_ub :: double
  mpvar_integer :: bool
  mpvar_name :: string

record MPConstraint =
  row_lb :: double
  row_ub :: double
  row_name :: string
  row_coeffs :: "nat \<rightharpoonup> double"

record MPSolver =
  mp_name :: string
  mp_problem_type :: OptimizationProblemType
  mp_variables :: "MPVariable list"
  mp_constraints :: "MPConstraint list"
  mp_objective_coeffs :: "nat \<rightharpoonup> double"
  mp_maximization :: bool

definition MPSolver_init :: "string \<Rightarrow> OptimizationProblemType \<Rightarrow> MPSolver" where
  "MPSolver_init name problem_type =
     \<lparr>mp_name = name, mp_problem_type = problem_type, mp_variables = [],
      mp_constraints = [], mp_objective_coeffs = Map.empty, mp_maximization = False\<rparr>"

definition MakeVar :: "MPSolver \<Rightarrow> double \<Rightarrow> double \<Rightarrow> bool \<Rightarrow> string \<Rightarrow> nat \<times> MPSolver" where
  "MakeVar s lb ub integer name =
     (length (mp_variables s),
      s\<lparr>mp_variables := mp_variables s @
          [\<lparr>mpvar_lb = lb, mpvar_ub = ub, mpvar_integer = integer, mpvar_name = name\<rparr>]\<rparr>)"

definition MakeNumVar :: "MPSolver \<Rightarrow> double \<Rightarrow> double \<Rightarrow> string \<Rightarrow> nat \<times> MPSolver" where
  "MakeNumVar s lb ub name = MakeVar s lb ub False name"

definition MakeIntVar :: "MPSolver \<Rightarrow> double \<Rightarrow> double \<Rightarrow> string \<Rightarrow> nat \<times> MPSolver" where
  "MakeIntVar s lb ub name = MakeVar s lb ub True name"

definition MakeBoolVar :: "MPSolver \<Rightarrow> string \<Rightarrow> nat \<times> MPSolver" where
  "MakeBoolVar s name = MakeVar s (Finite False 0 0) (Finite False 1 0) True name"

definition MakeRowConstraint ::
  "MPSolver \<Rightarrow> double \<Rightarrow> double \<Rightarrow> string \<Rightarrow> nat \<times> MPSolver" where
  "MakeRowConstraint s lb ub name =
     (length (mp_constraints s),
      s\<lparr>mp_constraints := mp_constraints s @
          [\<lparr>row_lb = lb, row_ub = ub, row_name = name, row_coeffs = Map.empty\<rparr>]\<rparr>)"

definition SetCoefficient :: "MPSolver \<Rightarrow> nat \<Rightarrow> nat \<Rightarrow> double \<Rightarrow> MPSolver" where
  "SetCoefficient s row var coeff =
     s\<lparr>mp_constraints :=
         (mp_constraints s)[row :=
            (mp_constraints s ! row)\<lparr>row_coeffs := (row_coeffs (mp_constraints s ! row))(var \<mapsto> coeff)\<rparr>]\<rparr>"

definition SetObjectiveCoefficient :: "MPSolver \<Rightarrow> nat \<Rightarrow> double \<Rightarrow> MPSolver" where
  "SetObjectiveCoefficient s var coeff =
     s\<lparr>mp_objective_coeffs := (mp_objective_coeffs s)(var \<mapsto> coeff)\<rparr>"

record MpSolver =
  solver :: MPSolver
  variables :: "nat list"
  constraints :: "nat list"

definition mpsolver_new :: "cstring \<Rightarrow> int \<Rightarrow> MpSolver" where
  "mpsolver_new name solver_type =
     (let problem_type =
            (if solver_type = ORTOOLS_LP_GLOP then GLOP_LINEAR_PROGRAMMING
             else if solver_type = ORTOOLS_LP_CLP then CLP_LINEAR_PROGRAMMING
             else if solver_type = ORTOOLS_MIP_CBC then CBC_MIXED_INTEGER_PROGRAMMING
             else if solver_type = ORTOOLS_MIP_SCIP then SCIP_MIXED_INTEGER_PROGRAMMING
             else GLOP_LINEAR_PROGRAMMING)
      in \<lparr>solver = MPSolver_init (case name of Some s \<Rightarrow> s | None \<Rightarrow> ''solver'') problem_type,
          variables = [], constraints = []\<rparr>)"

definition mpsolver_num_var ::
  "MpSolver \<Rightarrow> double \<Rightarrow> double \<Rightarrow> cstring \<Rightarrow> int32_t \<times> MpSolver" where
  "mpsolver_num_var s lb ub name =
     (let (var, e) = MakeNumVar (solver s) lb ub (case name of Some n \<Rightarrow> n | None \<Rightarrow> []);
          idx = (word_of_nat (length (variables s)) :: int32_t)
      in (idx, s\<lparr>solver := e, variables := variables s @ [var]\<rparr>))"

definition mpsolver_int_var ::
  "MpSolver \<Rightarrow> double \<Rightarrow> double \<Rightarrow> cstring \<Rightarrow> int32_t \<times> MpSolver" where
  "mpsolver_int_var s lb ub name =
     (let (var, e) = MakeIntVar (solver s) lb ub (case name of Some n \<Rightarrow> n | None \<Rightarrow> []);
          idx = (word_of_nat (length (variables s)) :: int32_t)
      in (idx, s\<lparr>solver := e, variables := variables s @ [var]\<rparr>))"

definition mpsolver_bool_var :: "MpSolver \<Rightarrow> cstring \<Rightarrow> int32_t \<times> MpSolver" where
  "mpsolver_bool_var s name =
     (let (var, e) = MakeBoolVar (solver s) (case name of Some n \<Rightarrow> n | None \<Rightarrow> []);
          idx = (word_of_nat (length (variables s)) :: int32_t)
      in (idx, s\<lparr>solver := e, variables := variables s @ [var]\<rparr>))"

definition mpsolver_add_constraint ::
  "MpSolver \<Rightarrow> double \<Rightarrow> double \<Rightarrow> cstring \<Rightarrow> int32_t \<times> MpSolver" where
  "mpsolver_add_constraint s lb ub name =
     (let (constraint, e) =
            MakeRowConstraint (solver s) lb ub (case name of Some n \<Rightarrow> n | None \<Rightarrow> []);
          idx = (word_of_nat (length (constraints s)) :: int32_t)
      in (idx, s\<lparr>solver := e, constraints := constraints s @ [constraint]\<rparr>))"

definition vector_at :: "'a list \<Rightarrow> int32_t \<Rightarrow> fault + 'a" where
  "vector_at v k =
     (if 0 \<le> sint k \<and> nat (sint k) < length v then Inr (v ! nat (sint k))
      else Inl OutOfBounds)"

definition mpsolver_set_constraint_coeff ::
  "MpSolver \<Rightarrow> int32_t \<Rightarrow> int32_t \<Rightarrow> double \<Rightarrow> fault + MpSolver" where
  "mpsolver_set_constraint_coeff s constraint_idx var_idx coeff =
     (case vector_at (constraints s) constraint_idx of
        Inl f \<Rightarrow> Inl f
      | Inr row \<Rightarrow>
          (case vector_at (variables s) var_idx of
             Inl f \<Rightarrow> Inl f
           | Inr var \<Rightarrow> Inr (s\<lparr>solver := SetCoefficient (solver s) row var coeff\<rparr>)))"

definition mpsolver_set_objective_coeff ::
  "MpSolver \<Rightarrow> int32_t \<Rightarrow> double \<Rightarrow> fault + MpSolver" where
  "mpsolver_set_objective_coeff s var_idx coeff =
     (case vector_at (variables s) var_idx of
        Inl f \<Rightarrow> Inl f
      | Inr var \<Rightarrow> Inr (s\<lparr>solver := SetObjectiveCoefficient (solver s) var coeff\<rparr>))"

definition mpsolver_minimize :: "MpSolver \<Rightarrow> MpSolver" where
  "mpsolver_minimize s = s\<lparr>solver := (solver s)\<lparr>mp_maximization := False\<rparr>\<rparr>"

definition mpsolver_maximize :: "MpSolver \<Rightarrow> MpSolver" where
  "mpsolver_maximize s = s\<lparr>solver := (solver s)\<lparr>mp_maximization := True\<rparr>\<rparr>"

text \<open>The engine's \<open>Solve\<close> is a parameter: it returns a native status and the solver as solved.\<close>

definition mpsolver_solve ::
  "(MPSolver \<Rightarrow> int \<times> MPSolver) \<Rightarrow> MpSolver \<Rightarrow> OrtoolsStatus \<times> MpSolver" where
  "mpsolver_solve Solve s =
     (let (st, e) = Solve (solver s) in (convert_lp_status st, s\<lparr>solver := e\<rparr>))"

section \<open>Models reached through the interface\<close>

text \<open>
  \<open>cp_reachable n m\<close>: the discrete builder \<open>m\<close> results from \<open>cpmodel_new\<close> by calls of
  the interface that returned, \<open>n\<close> of them variable creations. \<open>mp_reachable nv nc s\<close>:
  the same for a linear solver, with \<open>nv\<close> variable creations and \<open>nc\<close> constraint creations.
\<close>

inductive cp_reachable :: "nat \<Rightarrow> CpModelBuilder \<Rightarrow> bool" where
  cp_new: "cp_reachable 0 CpModelBuilder_init"
| cp_int_var: "cp_reachable n m \<Longrightarrow> cp_reachable (Suc n) (snd (cpmodel_new_int_var m lb ub name))"
| cp_bool_var: "cp_reachable n m \<Longrightarrow> cp_reachable (Suc n) (snd (cpmodel_new_bool_var m name))"
| cp_linear_le:
    "cp_reachable n m \<Longrightarrow> cpmodel_add_linear_le m var_indices coeffs num_vars rhs = Inr m'
       \<Longrightarrow> cp_reachable n m'"
| cp_linear_ge:
    "cp_reachable n m \<Longrightarrow> cpmodel_add_linear_ge m var_indices coeffs num_vars rhs = Inr m'
       \<Longrightarrow> cp_reachable n m'"
| cp_linear_eq:
    "cp_reachable n m \<Longrightarrow> cpmodel_add_linear_eq m var_indices coeffs num_vars rhs = Inr m'
       \<Longrightarrow> cp_reachable n m'"
| cp_all_different:
    "cp_reachable n m \<Longrightarrow> cpmodel_add_all_different m var_indices num_vars = Inr m'
       \<Longrightarrow> cp_reachable n m'"
| cp_minimize:
    "cp_reachable n m \<Longrightarrow> cpmodel_minimize m var_indices coeffs num_vars = Inr m'
       \<Longrightarrow> cp_reachable n m'"
| cp_maximize:
    "cp_reachable n m \<Longrightarrow> cpmodel_maximize m var_indices coeffs num_vars = Inr m'
       \<Longrightarrow> cp_reachable n m'"

inductive mp_reachable :: "nat \<Rightarrow> nat \<Rightarrow> MpSolver \<Rightarrow> bool" where
  mp_new: "mp_reachable 0 0 (mpsolver_new name solver_type)"
| mp_num_var:
    "mp_reachable nv nc s \<Longrightarrow> mp_reachable (Suc nv) nc (snd (mpsolver_num_var s lb ub name))"
| mp_int_var:
    "mp_reachable nv nc s \<Longrightarrow> mp_reachable (Suc nv) nc (snd (mpsolver_int_var s lb ub name))"
| mp_bool_var:
    "mp_reachable nv nc s \<Longrightarrow> mp_reachable (Suc nv) nc (snd (mpsolver_bool_var s name))"
| mp_add_constraint:
    "mp_reachable nv nc s
       \<Longrightarrow> mp_reachable nv (Suc nc) (snd (mpsolver_add_constraint s lb ub name))"
| mp_set_constraint_coeff:
    "mp_reachable nv nc s
       \<Longrightarrow> mpsolver_set_constraint_coeff s constraint_idx var_idx coeff = Inr s'
       \<Longrightarrow> mp_reachable nv nc s'"
| mp_set_objective_coeff:
    "mp_reachable nv nc s \<Longrightarrow> mpsolver_set_objective_coeff s var_idx coeff = Inr s'
       \<Longrightarrow> mp_reachable nv nc s'"
| mp_minimize: "mp_reachable nv nc s \<Longrightarrow> mp_reachable nv nc (mpsolver_minimize s)"
| mp_maximize: "mp_reachable nv nc s \<Longrightarrow> mp_reachable nv nc (mpsolver_maximize s)"
| mp_solve: "mp_reachable nv nc s \<Longrightarrow> mp_reachable nv nc (snd (mpsolver_solve Solve s))"

text \<open>
  \<open>cp_later m m'\<close>: the builder \<open>m'\<close> results from the builder \<open>m\<close> by any number
  of calls of the interface that returned; \<open>mp_later s s'\<close> is the same for a linear
  solver.
\<close>

inductive cp_later :: "CpModelBuilder \<Rightarrow> CpModelBuilder \<Rightarrow> bool" where
  cp_later_refl: "cp_later m m"
| cp_later_int_var: "cp_later m m' \<Longrightarrow> cp_later m (snd (cpmodel_new_int_var m' lb ub name))"
| cp_later_bool_var: "cp_later m m' \<Longrightarrow> cp_later m (snd (cpmodel_new_bool_var m' name))"
| cp_later_linear_le:
    "cp_later m m' \<Longrightarrow> cpmodel_add_linear_le m' var_indices coeffs num_vars rhs = Inr m''
       \<Longrightarrow> cp_later m m''"
| cp_later_linear_ge:
    "cp_later m m' \<Longrightarrow> cpmodel_add_linear_ge m' var_indices coeffs num_vars rhs = Inr m''
       \<Longrightarrow> cp_later m m''"
| cp_later_linear_eq:
    "cp_later m m' \<Longrightarrow> cpmodel_add_linear_eq m' var_indices coeffs num_vars rhs = Inr m''
       \<Longrightarrow> cp_later m m''"
| cp_later_all_different:
    "cp_later m m' \<Longrightarrow> cpmodel_add_all_different m' var_indices num_vars = Inr m''
       \<Longrightarrow> cp_later m m''"
| cp_later_minimize:
    "cp_later m m' \<Longrightarrow> cpmodel_minimize m' var_indices coeffs num_vars = Inr m''
       \<Longrightarrow> cp_later m m''"
| cp_later_maximize:
    "cp_later m m' \<Longrightarrow> cpmodel_maximize m' var_indices coeffs num_vars = Inr m''
       \<Longrightarrow> cp_later m m''"

inductive mp_later :: "MpSolver \<Rightarrow> MpSolver \<Rightarrow> bool" where
  mp_later_refl: "mp_later s s"
| mp_later_num_var: "mp_later s s' \<Longrightarrow> mp_later s (snd (mpsolver_num_var s' lb ub name))"
| mp_later_int_var: "mp_later s s' \<Longrightarrow> mp_later s (snd (mpsolver_int_var s' lb ub name))"
| mp_later_bool_var: "mp_later s s' \<Longrightarrow> mp_later s (snd (mpsolver_bool_var s' name))"
| mp_later_add_constraint:
    "mp_later s s' \<Longrightarrow> mp_later s (snd (mpsolver_add_constraint s' lb ub name))"
| mp_later_set_constraint_coeff:
    "mp_later s s' \<Longrightarrow> mpsolver_set_constraint_coeff s' constraint_idx var_idx coeff = Inr s''
       \<Longrightarrow> mp_later s s''"
| mp_later_set_objective_coeff:
    "mp_later s s' \<Longrightarrow> mpsolver_set_objective_coeff s' var_idx coeff = Inr s''
       \<Longrightarrow> mp_later s s''"
| mp_later_minimize: "mp_later s s' \<Longrightarrow> mp_later s (mpsolver_minimize s')"
| mp_later_maximize: "mp_later s s' \<Longrightarrow> mp_later s (mpsolver_maximize s')"
| mp_later_solve: "mp_later s s' \<Longrightarrow> mp_later s (snd (mpsolver_solve Solve s'))"

text \<open>Call sequences used below: \<open>k\<close> variable creations, \<open>k\<close> constraint creations.\<close>

definition mp_after_num_vars :: "nat \<Rightarrow> MpSolver" where
  "mp_after_num_vars k =
     ((\<lambda>s. snd (mpsolver_num_var s (Finite False 0 0) (Finite False 1 0) None)) ^^ k)
       (mpsolver_new None ORTOOLS_LP_GLOP)"

definition mp_after_constraints :: "nat \<Rightarrow> MpSolver" where
  "mp_after_constraints k =
     ((\<lambda>s. snd (mpsolver_add_constraint s (Finite False 0 0) (Finite False 1 0) None)) ^^ k)
       (mpsolver_new None ORTOOLS_LP_GLOP)"

definition two_var_model :: CpModelBuilder where
  "two_var_model =
     snd (cpmodel_new_bool_var
            (snd (cpmodel_new_int_var CpModelBuilder_init 0 10 (Some ''x''))) None)"

text \<open>An engine and a store for the examples below.\<close>

definition example_engine :: "CpModelProto \<Rightarrow> SatParameters \<Rightarrow> sat_CpSolverResponse" where
  "example_engine m params =
     \<lparr>status = (if max_time_in_seconds params = None then CpSolverStatus_OPTIMAL else CpSolverStatus_FEASIBLE),
      objective_value = Finite False (length (proto_constraints m)) 0,
      solution = [], wall_time = Finite False 0 0\<rparr>"

definition example_store :: Store where
  "example_store = \<lparr>cp_models = [two_var_model], cp_responses = []\<rparr>"

section \<open>Properties of the status normalizers\<close>

lemmas native_status_defs =
  CpSolverStatus_UNKNOWN_def CpSolverStatus_MODEL_INVALID_def CpSolverStatus_FEASIBLE_def
  CpSolverStatus_INFEASIBLE_def CpSolverStatus_OPTIMAL_def
  MPSolver_OPTIMAL_def MPSolver_FEASIBLE_def MPSolver_INFEASIBLE_def MPSolver_UNBOUNDED_def
  MPSolver_ABNORMAL_def MPSolver_MODEL_INVALID_def MPSolver_NOT_SOLVED_def


text \<open>
  C3. Both normalizers are total functions of the native code, with no failing branch:
  every discrete-engine code other than OPTIMAL, FEASIBLE, INFEASIBLE and MODEL_INVALID is
  mapped to UNKNOWN, and every linear-engine code other than OPTIMAL, FEASIBLE, INFEASIBLE
  and UNBOUNDED is mapped to ERROR.
\<close>

theorem convert_status_fallback:
  "(cp \<notin> {CpSolverStatus_OPTIMAL, CpSolverStatus_FEASIBLE, CpSolverStatus_INFEASIBLE,
            CpSolverStatus_MODEL_INVALID}
      \<longrightarrow> convert_cp_status cp = ORTOOLS_STATUS_UNKNOWN) \<and>
   (lp \<notin> {MPSolver_OPTIMAL, MPSolver_FEASIBLE, MPSolver_INFEASIBLE, MPSolver_UNBOUNDED}
      \<longrightarrow> convert_lp_status lp = ORTOOLS_STATUS_ERROR)"
  by (simp add: convert_cp_status_def convert_lp_status_def)

theorem convert_status_fallback_witness:
  "CpSolverStatus_UNKNOWN \<notin> {CpSolverStatus_OPTIMAL, CpSolverStatus_FEASIBLE,
       CpSolverStatus_INFEASIBLE, CpSolverStatus_MODEL_INVALID} \<and>
   convert_cp_status CpSolverStatus_UNKNOWN = ORTOOLS_STATUS_UNKNOWN \<and>
   MPSolver_ABNORMAL \<notin> {MPSolver_OPTIMAL, MPSolver_FEASIBLE, MPSolver_INFEASIBLE,
       MPSolver_UNBOUNDED} \<and>
   convert_lp_status MPSolver_ABNORMAL = ORTOOLS_STATUS_ERROR"
  using convert_status_fallback [of CpSolverStatus_UNKNOWN MPSolver_ABNORMAL]
  by (simp add: native_status_defs)

text \<open>
  C4. The discrete normalizer never returns UNBOUNDED or ERROR, and the linear normalizer
  never returns MODEL_INVALID or UNKNOWN, whatever the native code; UNBOUNDED is returned
  by the linear normalizer (for the engine's UNBOUNDED) and MODEL_INVALID by the discrete
  one (for the engine's MODEL_INVALID).
\<close>

theorem convert_status_ranges:
  "convert_cp_status cp \<noteq> ORTOOLS_STATUS_UNBOUNDED \<and>
   convert_cp_status cp \<noteq> ORTOOLS_STATUS_ERROR \<and>
   convert_lp_status lp \<noteq> ORTOOLS_STATUS_MODEL_INVALID \<and>
   convert_lp_status lp \<noteq> ORTOOLS_STATUS_UNKNOWN \<and>
   convert_lp_status MPSolver_UNBOUNDED = ORTOOLS_STATUS_UNBOUNDED \<and>
   convert_cp_status CpSolverStatus_MODEL_INVALID = ORTOOLS_STATUS_MODEL_INVALID"
  by (simp add: convert_cp_status_def convert_lp_status_def native_status_defs)

section \<open>Linear expressions\<close>

lemma build_linear_expr_loop_valid:
  assumes "num_vars \<le> length var_indices" and "num_vars \<le> length coeffs"
    and "\<forall>k<num_vars. 0 \<le> sint (var_indices ! k) \<and> nat (sint (var_indices ! k)) < length (vars mdl)"
    and "i \<le> num_vars"
  shows "build_linear_expr_loop mdl var_indices coeffs num_vars i expr =
     Inr \<lparr>expr_terms = expr_terms expr @
            map (\<lambda>k. (vars mdl ! nat (sint (var_indices ! k)), coeffs ! k)) [i..<num_vars],
          expr_constant = expr_constant expr\<rparr>"
  using assms
proof (induction mdl var_indices coeffs num_vars i expr rule: build_linear_expr_loop.induct)
  case (1 mdl var_indices coeffs num_vars i expr)
  show ?case
  proof (cases "i < num_vars")
    case True
    then have v: "vars_at mdl (var_indices ! i) = Inr (vars mdl ! nat (sint (var_indices ! i)))"
      using "1.prems" by (simp add: vars_at_def)
    have rng: "i < length var_indices \<and> i < length coeffs"
      using True "1.prems" by simp
    have "build_linear_expr_loop mdl var_indices coeffs num_vars (Suc i)
            (LinearExpr_add expr (LinearExpr_term (vars mdl ! nat (sint (var_indices ! i))) (coeffs ! i)))
          = Inr \<lparr>expr_terms = expr_terms (LinearExpr_add expr (LinearExpr_term (vars mdl ! nat (sint (var_indices ! i))) (coeffs ! i))) @
            map (\<lambda>k. (vars mdl ! nat (sint (var_indices ! k)), coeffs ! k)) [Suc i..<num_vars],
          expr_constant = expr_constant (LinearExpr_add expr (LinearExpr_term (vars mdl ! nat (sint (var_indices ! i))) (coeffs ! i)))\<rparr>"
      using "1.IH" [OF True rng v] "1.prems" True by simp
    then show ?thesis
      using True rng v
      by (subst build_linear_expr_loop.simps)
         (simp add: LinearExpr_add_def LinearExpr_term_def upt_conv_Cons)
  next
    case False
    then show ?thesis
      using "1.prems" by (subst build_linear_expr_loop.simps) simp
  qed
qed

lemma build_linear_expr_valid:
  assumes "length var_indices = num_vars" and "length coeffs = num_vars"
    and "\<forall>h \<in> set var_indices. 0 \<le> sint h \<and> sint h < int (length (vars mdl))"
  shows "build_linear_expr mdl var_indices coeffs num_vars =
     Inr \<lparr>expr_terms = map (\<lambda>k. (vars mdl ! nat (sint (var_indices ! k)), coeffs ! k)) [0..<num_vars],
          expr_constant = 0\<rparr>"
proof -
  have valid: "\<forall>k<num_vars. 0 \<le> sint (var_indices ! k) \<and>
      nat (sint (var_indices ! k)) < length (vars mdl)"
    using assms(1,3) by (auto simp: all_set_conv_all_nth)
  show ?thesis
    unfolding build_linear_expr_def
    using build_linear_expr_loop_valid [of num_vars var_indices coeffs mdl 0 LinearExpr_init]
      assms(1,2) valid
    by (simp add: LinearExpr_init_def)
qed

lemma sum_list_upt_filter:
  "(\<Sum>k\<leftarrow>[0..<n]. if g k = (x::'a) then (c k :: int) else 0) = (\<Sum>k | k < n \<and> g k = x. c k)"
proof -
  have "(\<Sum>k\<leftarrow>[0..<n]. if g k = x then c k else 0) = (\<Sum>k\<in>{0..<n}. if g k = x then c k else 0)"
    by (simp add: interv_sum_list_conv_sum_set_nat)
  also have "\<dots> = (\<Sum>k\<in>{k. k < n \<and> g k = x}. c k)"
    by (rule sum.mono_neutral_cong_right) auto
  finally show ?thesis .
qed

lemma vars_two_var_model: "vars two_var_model = [0, 1]"
  by (simp add: two_var_model_def cpmodel_new_bool_var_def cpmodel_new_int_var_def
      CpModelBuilder_init_def sat_CpModelBuilder_init_def NewIntVar_def NewBoolVar_def
      WithName_def)

text \<open>
  C1. For equal-length sequences of valid handles and coefficients, \<open>build_linear_expr\<close>
  returns an expression whose value under every assignment is the weighted sum of
  \<open>coeffs[i]\<close> times the variable at \<open>handles[i]\<close>; the coefficient it gives to a
  variable is the sum of the coefficients at all positions that name it (a repeated handle
  accumulates, nothing is deduplicated); and each of the five calls hands exactly this
  expression to the engine.
\<close>

theorem linear_expr_is_weighted_sum:
  assumes "length var_indices = num_vars" and "length coeffs = num_vars"
    and "\<forall>h \<in> set var_indices. 0 \<le> sint h \<and> sint h < int (length (vars mdl))"
  shows "\<exists>expr.
     build_linear_expr mdl var_indices coeffs num_vars = Inr expr \<and>
     (\<forall>val. eval_LinearExpr val expr =
        (\<Sum>i<num_vars. sint (coeffs ! i) * val (vars mdl ! nat (sint (var_indices ! i))))) \<and>
     (\<forall>var. coefficient_of expr var =
        (\<Sum>i | i < num_vars \<and> vars mdl ! nat (sint (var_indices ! i)) = var. sint (coeffs ! i))) \<and>
     cpmodel_add_linear_le mdl var_indices coeffs num_vars rhs =
        Inr (mdl\<lparr>builder := AddLinear (builder mdl) expr LessOrEqual rhs\<rparr>) \<and>
     cpmodel_add_linear_ge mdl var_indices coeffs num_vars rhs =
        Inr (mdl\<lparr>builder := AddLinear (builder mdl) expr GreaterOrEqual rhs\<rparr>) \<and>
     cpmodel_add_linear_eq mdl var_indices coeffs num_vars rhs =
        Inr (mdl\<lparr>builder := AddLinear (builder mdl) expr Equality rhs\<rparr>) \<and>
     cpmodel_minimize mdl var_indices coeffs num_vars =
        Inr (mdl\<lparr>builder := Minimize (builder mdl) expr\<rparr>) \<and>
     cpmodel_maximize mdl var_indices coeffs num_vars =
        Inr (mdl\<lparr>builder := Maximize (builder mdl) expr\<rparr>)"
proof -
  let ?g = "\<lambda>k. vars mdl ! nat (sint (var_indices ! k))"
  let ?e = "\<lparr>expr_terms = map (\<lambda>k. (?g k, coeffs ! k)) [0..<num_vars], expr_constant = 0\<rparr>"
  have b: "build_linear_expr mdl var_indices coeffs num_vars = Inr ?e"
    by (rule build_linear_expr_valid [OF assms])
  have ev: "eval_LinearExpr val ?e = (\<Sum>i<num_vars. sint (coeffs ! i) * val (?g i))" for val
    by (simp add: eval_LinearExpr_def comp_def interv_sum_list_conv_sum_set_nat
        atLeast0LessThan)
  have co: "coefficient_of ?e var = (\<Sum>i | i < num_vars \<and> ?g i = var. sint (coeffs ! i))" for var
    using sum_list_upt_filter [where g = ?g and x = var and n = num_vars and c = "\<lambda>i. sint (coeffs ! i)"]
    by (simp add: coefficient_of_def comp_def)
  show ?thesis
    apply (rule exI [of _ ?e])
    using b ev co
    by (simp add: cpmodel_add_linear_le_def cpmodel_add_linear_ge_def cpmodel_add_linear_eq_def
        cpmodel_minimize_def cpmodel_maximize_def)
qed

theorem linear_expr_is_weighted_sum_witness:
  "\<exists>expr. build_linear_expr two_var_model [0, 1, 0] [2, 3, 5] 3 = Inr expr \<and>
     eval_LinearExpr (\<lambda>v. if v = 0 then 4 else 1) expr = 31 \<and>
     coefficient_of expr 0 = 7 \<and>
     cpmodel_maximize two_var_model [0, 1, 0] [2, 3, 5] 3 =
       Inr (two_var_model\<lparr>builder := Maximize (builder two_var_model) expr\<rparr>)"
proof -
  have h1: "length [0, 1, 0 :: int32_t] = 3" and h2: "length [2, 3, 5 :: int64_t] = 3"
    by simp_all
  have h3: "\<forall>h \<in> set [0, 1, 0 :: int32_t]. 0 \<le> sint h \<and> sint h < int (length (vars two_var_model))"
    by (simp add: vars_two_var_model)
  have s: "{i. i < 3 \<and> vars two_var_model ! nat (sint ([0, 1, 0 :: int32_t] ! i)) = 0} = {0, 2}"
    by (auto simp: vars_two_var_model numeral_3_eq_3 less_Suc_eq)
  from linear_expr_is_weighted_sum [OF h1 h2 h3, of 0]
  obtain expr where e: "build_linear_expr two_var_model [0, 1, 0] [2, 3, 5] 3 = Inr expr"
    and ev: "\<forall>val. eval_LinearExpr val expr =
        (\<Sum>i<3. sint ([2, 3, 5 :: int64_t] ! i) * val (vars two_var_model ! nat (sint ([0, 1, 0 :: int32_t] ! i))))"
    and co: "\<forall>var. coefficient_of expr var =
        (\<Sum>i | i < 3 \<and> vars two_var_model ! nat (sint ([0, 1, 0 :: int32_t] ! i)) = var. sint ([2, 3, 5 :: int64_t] ! i))"
    and mx: "cpmodel_maximize two_var_model [0, 1, 0] [2, 3, 5] 3 =
       Inr (two_var_model\<lparr>builder := Maximize (builder two_var_model) expr\<rparr>)"
    by blast
  have "eval_LinearExpr (\<lambda>v. if v = 0 then 4 else 1) expr = 31"
    using ev by (simp add: vars_two_var_model numeral_3_eq_3)
  moreover have "coefficient_of expr 0 = 7"
  proof -
    have "coefficient_of expr 0 =
        (\<Sum>i | i < 3 \<and> vars two_var_model ! nat (sint ([0, 1, 0 :: int32_t] ! i)) = 0.
           sint ([2, 3, 5 :: int64_t] ! i))"
      using co by blast
    then show ?thesis unfolding s by simp
  qed
  ultimately show ?thesis using e mx by blast
qed

section \<open>Handle assignment\<close>

lemma sint_index_small: "n < 2 ^ 31 \<Longrightarrow> sint (word_of_nat n :: int32_t) = int n"
proof -
  assume "n < 2 ^ 31"
  then have "int n < int (2 ^ 31)"
    by (simp only: of_nat_less_iff)
  then have up: "int n < 2 ^ 31"
    by simp
  have lo: "- (2 ^ 31) \<le> int n"
    by (rule order_trans [of _ 0]) simp_all
  show ?thesis
    using signed_take_bit_int_eq_self [OF lo up]
    by (simp add: signed_of_nat)
qed

lemma sint_index_wrap: "sint (word_of_nat 2147483648 :: int32_t) = - 2147483648"
  by simp

lemma fst_new_int_var: "fst (cpmodel_new_int_var m lb ub name) = word_of_nat (length (vars m))"
  by (simp add: cpmodel_new_int_var_def split: prod.splits)

lemma vars_new_int_var: "vars (snd (cpmodel_new_int_var m lb ub name)) = vars m @ [length (proto_variables (builder m))]"
  by (simp add: cpmodel_new_int_var_def NewIntVar_def split: prod.splits)

lemma fst_new_bool_var: "fst (cpmodel_new_bool_var m name) = word_of_nat (length (vars m))"
  by (simp add: cpmodel_new_bool_var_def split: prod.splits)

lemma vars_new_bool_var: "vars (snd (cpmodel_new_bool_var m name)) = vars m @ [length (proto_variables (builder m))]"
  by (simp add: cpmodel_new_bool_var_def NewBoolVar_def split: prod.splits)

lemma cp_reachable_length: "cp_reachable n m \<Longrightarrow> length (vars m) = n"
proof (induction rule: cp_reachable.induct)
  case cp_new
  then show ?case by (simp add: CpModelBuilder_init_def)
next
  case (cp_int_var n m lb ub name)
  then show ?case by (simp add: vars_new_int_var)
next
  case (cp_bool_var n m name)
  then show ?case by (simp add: vars_new_bool_var)
next
  case (cp_linear_le n m var_indices coeffs num_vars rhs m')
  then show ?case by (auto simp: cpmodel_add_linear_le_def split: sum.splits)
next
  case (cp_linear_ge n m var_indices coeffs num_vars rhs m')
  then show ?case by (auto simp: cpmodel_add_linear_ge_def split: sum.splits)
next
  case (cp_linear_eq n m var_indices coeffs num_vars rhs m')
  then show ?case by (auto simp: cpmodel_add_linear_eq_def split: sum.splits)
next
  case (cp_all_different n m var_indices num_vars m')
  then show ?case by (auto simp: cpmodel_add_all_different_def split: sum.splits)
next
  case (cp_minimize n m var_indices coeffs num_vars m')
  then show ?case by (auto simp: cpmodel_minimize_def split: sum.splits)
next
  case (cp_maximize n m var_indices coeffs num_vars m')
  then show ?case by (auto simp: cpmodel_maximize_def split: sum.splits)
qed

lemma fst_num_var: "fst (mpsolver_num_var s lb ub name) = word_of_nat (length (variables s))"
  by (simp add: mpsolver_num_var_def split: prod.splits)

lemma fst_int_var: "fst (mpsolver_int_var s lb ub name) = word_of_nat (length (variables s))"
  by (simp add: mpsolver_int_var_def split: prod.splits)

lemma fst_bool_var: "fst (mpsolver_bool_var s name) = word_of_nat (length (variables s))"
  by (simp add: mpsolver_bool_var_def split: prod.splits)

lemma fst_add_constraint: "fst (mpsolver_add_constraint s lb ub name) = word_of_nat (length (constraints s))"
  by (simp add: mpsolver_add_constraint_def split: prod.splits)

lemma tables_num_var:
  "variables (snd (mpsolver_num_var s lb ub name)) = variables s @ [length (mp_variables (solver s))] \<and>
   constraints (snd (mpsolver_num_var s lb ub name)) = constraints s"
  by (simp add: mpsolver_num_var_def MakeNumVar_def MakeVar_def split: prod.splits)

lemma tables_int_var:
  "variables (snd (mpsolver_int_var s lb ub name)) = variables s @ [length (mp_variables (solver s))] \<and>
   constraints (snd (mpsolver_int_var s lb ub name)) = constraints s"
  by (simp add: mpsolver_int_var_def MakeIntVar_def MakeVar_def split: prod.splits)

lemma tables_bool_var:
  "variables (snd (mpsolver_bool_var s name)) = variables s @ [length (mp_variables (solver s))] \<and>
   constraints (snd (mpsolver_bool_var s name)) = constraints s"
  by (simp add: mpsolver_bool_var_def MakeBoolVar_def MakeVar_def split: prod.splits)

lemma tables_add_constraint:
  "variables (snd (mpsolver_add_constraint s lb ub name)) = variables s \<and>
   constraints (snd (mpsolver_add_constraint s lb ub name)) = constraints s @ [length (mp_constraints (solver s))]"
  by (simp add: mpsolver_add_constraint_def MakeRowConstraint_def split: prod.splits)

lemma mp_reachable_lengths:
  "mp_reachable nv nc s \<Longrightarrow> length (variables s) = nv \<and> length (constraints s) = nc"
proof (induction rule: mp_reachable.induct)
  case (mp_new name solver_type)
  then show ?case by (simp add: mpsolver_new_def)
next
  case (mp_num_var nv nc s lb ub name)
  then show ?case by (simp add: tables_num_var)
next
  case (mp_int_var nv nc s lb ub name)
  then show ?case by (simp add: tables_int_var)
next
  case (mp_bool_var nv nc s name)
  then show ?case by (simp add: tables_bool_var)
next
  case (mp_add_constraint nv nc s lb ub name)
  then show ?case by (simp add: tables_add_constraint)
next
  case (mp_set_constraint_coeff nv nc s constraint_idx var_idx coeff s')
  then show ?case by (auto simp: mpsolver_set_constraint_coeff_def split: sum.splits)
next
  case (mp_set_objective_coeff nv nc s var_idx coeff s')
  then show ?case by (auto simp: mpsolver_set_objective_coeff_def split: sum.splits)
next
  case (mp_minimize nv nc s)
  then show ?case by (simp add: mpsolver_minimize_def)
next
  case (mp_maximize nv nc s)
  then show ?case by (simp add: mpsolver_maximize_def)
next
  case (mp_solve nv nc s Solve)
  then show ?case by (simp add: mpsolver_solve_def split: prod.splits)
qed

lemma mp_after_num_vars_reachable: "mp_reachable k 0 (mp_after_num_vars k)"
  unfolding mp_after_num_vars_def
  by (induction k) (auto intro: mp_reachable.intros)

lemma mp_after_constraints_reachable: "mp_reachable 0 k (mp_after_constraints k)"
  unfolding mp_after_constraints_def
  by (induction k) (auto intro: mp_reachable.intros)

lemma two_var_model_reachable: "cp_reachable 2 two_var_model"
proof -
  have "cp_reachable (Suc (Suc 0)) two_var_model"
    unfolding two_var_model_def by (intro cp_reachable.intros)
  then show ?thesis by (simp add: numeral_2_eq_2)
qed

lemma cp_later_prefix:
  "cp_later m m' \<Longrightarrow>
     length (vars m) \<le> length (vars m') \<and> take (length (vars m)) (vars m') = vars m"
proof (induction rule: cp_later.induct)
  case (cp_later_refl m)
  then show ?case by simp
next
  case (cp_later_int_var m m' lb ub name)
  then show ?case by (simp add: vars_new_int_var)
next
  case (cp_later_bool_var m m' name)
  then show ?case by (simp add: vars_new_bool_var)
next
  case (cp_later_linear_le m m' var_indices coeffs num_vars rhs m'')
  then show ?case by (auto simp: cpmodel_add_linear_le_def split: sum.splits)
next
  case (cp_later_linear_ge m m' var_indices coeffs num_vars rhs m'')
  then show ?case by (auto simp: cpmodel_add_linear_ge_def split: sum.splits)
next
  case (cp_later_linear_eq m m' var_indices coeffs num_vars rhs m'')
  then show ?case by (auto simp: cpmodel_add_linear_eq_def split: sum.splits)
next
  case (cp_later_all_different m m' var_indices num_vars m'')
  then show ?case by (auto simp: cpmodel_add_all_different_def split: sum.splits)
next
  case (cp_later_minimize m m' var_indices coeffs num_vars m'')
  then show ?case by (auto simp: cpmodel_minimize_def split: sum.splits)
next
  case (cp_later_maximize m m' var_indices coeffs num_vars m'')
  then show ?case by (auto simp: cpmodel_maximize_def split: sum.splits)
qed

lemma mp_later_prefix:
  "mp_later s s' \<Longrightarrow>
     (length (variables s) \<le> length (variables s') \<and>
      take (length (variables s)) (variables s') = variables s) \<and>
     (length (constraints s) \<le> length (constraints s') \<and>
      take (length (constraints s)) (constraints s') = constraints s)"
proof (induction rule: mp_later.induct)
  case (mp_later_refl s)
  then show ?case by simp
next
  case (mp_later_num_var s s' lb ub name)
  then show ?case by (simp add: tables_num_var)
next
  case (mp_later_int_var s s' lb ub name)
  then show ?case by (simp add: tables_int_var)
next
  case (mp_later_bool_var s s' name)
  then show ?case by (simp add: tables_bool_var)
next
  case (mp_later_add_constraint s s' lb ub name)
  then show ?case by (simp add: tables_add_constraint)
next
  case (mp_later_set_constraint_coeff s s' constraint_idx var_idx coeff s'')
  then show ?case by (auto simp: mpsolver_set_constraint_coeff_def split: sum.splits)
next
  case (mp_later_set_objective_coeff s s' var_idx coeff s'')
  then show ?case by (auto simp: mpsolver_set_objective_coeff_def split: sum.splits)
next
  case (mp_later_minimize s s')
  then show ?case by (simp add: mpsolver_minimize_def)
next
  case (mp_later_maximize s s')
  then show ?case by (simp add: mpsolver_maximize_def)
next
  case (mp_later_solve s s' Solve)
  then show ?case by (simp add: mpsolver_solve_def split: prod.splits)
qed

lemma engine_vars_new_int_var:
  "length (proto_variables (builder (snd (cpmodel_new_int_var m lb ub name)))) =
     Suc (length (proto_variables (builder m)))"
  by (simp add: cpmodel_new_int_var_def NewIntVar_def WithName_def split: prod.splits option.splits)

lemma engine_vars_new_bool_var:
  "length (proto_variables (builder (snd (cpmodel_new_bool_var m name)))) =
     Suc (length (proto_variables (builder m)))"
  by (simp add: cpmodel_new_bool_var_def NewBoolVar_def WithName_def split: prod.splits option.splits)

lemma cp_reachable_table:
  "cp_reachable n m \<Longrightarrow> vars m = [0..<n] \<and> length (proto_variables (builder m)) = n"
proof (induction rule: cp_reachable.induct)
  case cp_new
  then show ?case by (simp add: CpModelBuilder_init_def sat_CpModelBuilder_init_def)
next
  case (cp_int_var n m lb ub name)
  then show ?case by (simp add: vars_new_int_var engine_vars_new_int_var)
next
  case (cp_bool_var n m name)
  then show ?case by (simp add: vars_new_bool_var engine_vars_new_bool_var)
next
  case (cp_linear_le n m var_indices coeffs num_vars rhs m')
  then show ?case by (auto simp: cpmodel_add_linear_le_def AddLinear_def split: sum.splits)
next
  case (cp_linear_ge n m var_indices coeffs num_vars rhs m')
  then show ?case by (auto simp: cpmodel_add_linear_ge_def AddLinear_def split: sum.splits)
next
  case (cp_linear_eq n m var_indices coeffs num_vars rhs m')
  then show ?case by (auto simp: cpmodel_add_linear_eq_def AddLinear_def split: sum.splits)
next
  case (cp_all_different n m var_indices num_vars m')
  then show ?case by (auto simp: cpmodel_add_all_different_def AddAllDifferent_def split: sum.splits)
next
  case (cp_minimize n m var_indices coeffs num_vars m')
  then show ?case by (auto simp: cpmodel_minimize_def Minimize_def split: sum.splits)
next
  case (cp_maximize n m var_indices coeffs num_vars m')
  then show ?case by (auto simp: cpmodel_maximize_def Maximize_def split: sum.splits)
qed

lemma handles_values:
  "(cp_reachable n m \<and> n < 2 ^ 31 \<longrightarrow>
      sint (fst (cpmodel_new_int_var m lb ub name)) = int n \<and>
      sint (fst (cpmodel_new_bool_var m name)) = int n \<and>
      take n (vars (snd (cpmodel_new_int_var m lb ub name))) = vars m \<and>
      take n (vars (snd (cpmodel_new_bool_var m name))) = vars m) \<and>
   (mp_reachable nv nc s \<and> nv < 2 ^ 31 \<longrightarrow>
      sint (fst (mpsolver_num_var s dlb dub name)) = int nv \<and>
      sint (fst (mpsolver_int_var s dlb dub name)) = int nv \<and>
      sint (fst (mpsolver_bool_var s name)) = int nv \<and>
      take nv (variables (snd (mpsolver_num_var s dlb dub name))) = variables s \<and>
      take nv (variables (snd (mpsolver_int_var s dlb dub name))) = variables s \<and>
      take nv (variables (snd (mpsolver_bool_var s name))) = variables s \<and>
      constraints (snd (mpsolver_num_var s dlb dub name)) = constraints s \<and>
      constraints (snd (mpsolver_int_var s dlb dub name)) = constraints s \<and>
      constraints (snd (mpsolver_bool_var s name)) = constraints s) \<and>
   (mp_reachable nv nc s \<and> nc < 2 ^ 31 \<longrightarrow>
      sint (fst (mpsolver_add_constraint s dlb dub name)) = int nc \<and>
      take nc (constraints (snd (mpsolver_add_constraint s dlb dub name))) = constraints s \<and>
      variables (snd (mpsolver_add_constraint s dlb dub name)) = variables s)"
proof (intro conjI impI; elim conjE)
  assume r: "cp_reachable n m" and b: "n < 2 ^ 31"
  have l: "length (vars m) = n" by (rule cp_reachable_length [OF r])
  show "sint (fst (cpmodel_new_int_var m lb ub name)) = int n"
    using sint_index_small [OF b] by (simp add: fst_new_int_var l)
  show "sint (fst (cpmodel_new_bool_var m name)) = int n"
    using sint_index_small [OF b] by (simp add: fst_new_bool_var l)
  show "take n (vars (snd (cpmodel_new_int_var m lb ub name))) = vars m"
    by (simp add: vars_new_int_var l)
  show "take n (vars (snd (cpmodel_new_bool_var m name))) = vars m"
    by (simp add: vars_new_bool_var l)
next
  assume r: "mp_reachable nv nc s" and b: "nv < 2 ^ 31"
  have l: "length (variables s) = nv" using mp_reachable_lengths [OF r] by simp
  show "sint (fst (mpsolver_num_var s dlb dub name)) = int nv"
    using sint_index_small [OF b] by (simp add: fst_num_var l)
  show "sint (fst (mpsolver_int_var s dlb dub name)) = int nv"
    using sint_index_small [OF b] by (simp add: fst_int_var l)
  show "sint (fst (mpsolver_bool_var s name)) = int nv"
    using sint_index_small [OF b] by (simp add: fst_bool_var l)
  show "take nv (variables (snd (mpsolver_num_var s dlb dub name))) = variables s"
    by (simp add: tables_num_var l)
  show "take nv (variables (snd (mpsolver_int_var s dlb dub name))) = variables s"
    by (simp add: tables_int_var l)
  show "take nv (variables (snd (mpsolver_bool_var s name))) = variables s"
    by (simp add: tables_bool_var l)
  show "constraints (snd (mpsolver_num_var s dlb dub name)) = constraints s"
    by (simp add: tables_num_var)
  show "constraints (snd (mpsolver_int_var s dlb dub name)) = constraints s"
    by (simp add: tables_int_var)
  show "constraints (snd (mpsolver_bool_var s name)) = constraints s"
    by (simp add: tables_bool_var)
next
  assume r: "mp_reachable nv nc s" and b: "nc < 2 ^ 31"
  have l: "length (constraints s) = nc" using mp_reachable_lengths [OF r] by simp
  show "sint (fst (mpsolver_add_constraint s dlb dub name)) = int nc"
    using sint_index_small [OF b] by (simp add: fst_add_constraint l)
  show "take nc (constraints (snd (mpsolver_add_constraint s dlb dub name))) = constraints s"
    by (simp add: tables_add_constraint l)
  show "variables (snd (mpsolver_add_constraint s dlb dub name)) = variables s"
    by (simp add: tables_add_constraint)
qed

text \<open>
  C2, as amended. On a model on which fewer than \<open>2^31\<close> variables have been created,
  the next variable creation returns the number of variables created so far, so the n-th
  creation returns \<open>n - 1\<close> for \<open>n \<le> 2^31\<close>; the same holds for the constraints of a
  linear model, counted in their own index space. A creation appends exactly one entry to
  its index table and leaves the other table as it was. No call of the interface moves or
  changes an existing entry: at every later state of the model each table still begins
  with the entries it had, so a handle keeps naming the same engine object for the
  lifetime of the model. On a discrete model the table is \<open>[0..<n]\<close>: handle \<open>k\<close> names
  the \<open>k\<close>-th variable of the engine's model.
\<close>

theorem handles_sequential:
  "((cp_reachable n m \<and> n < 2 ^ 31 \<longrightarrow>
       sint (fst (cpmodel_new_int_var m lb ub name)) = int n \<and>
       sint (fst (cpmodel_new_bool_var m name)) = int n \<and>
       take n (vars (snd (cpmodel_new_int_var m lb ub name))) = vars m \<and>
       take n (vars (snd (cpmodel_new_bool_var m name))) = vars m) \<and>
    (mp_reachable nv nc s \<and> nv < 2 ^ 31 \<longrightarrow>
       sint (fst (mpsolver_num_var s dlb dub name)) = int nv \<and>
       sint (fst (mpsolver_int_var s dlb dub name)) = int nv \<and>
       sint (fst (mpsolver_bool_var s name)) = int nv \<and>
       take nv (variables (snd (mpsolver_num_var s dlb dub name))) = variables s \<and>
       take nv (variables (snd (mpsolver_int_var s dlb dub name))) = variables s \<and>
       take nv (variables (snd (mpsolver_bool_var s name))) = variables s \<and>
       constraints (snd (mpsolver_num_var s dlb dub name)) = constraints s \<and>
       constraints (snd (mpsolver_int_var s dlb dub name)) = constraints s \<and>
       constraints (snd (mpsolver_bool_var s name)) = constraints s) \<and>
    (mp_reachable nv nc s \<and> nc < 2 ^ 31 \<longrightarrow>
       sint (fst (mpsolver_add_constraint s dlb dub name)) = int nc \<and>
       take nc (constraints (snd (mpsolver_add_constraint s dlb dub name))) = constraints s \<and>
       variables (snd (mpsolver_add_constraint s dlb dub name)) = variables s)) \<and>
   vars (snd (cpmodel_new_int_var m lb ub name)) =
     vars m @ [length (proto_variables (builder m))] \<and>
   vars (snd (cpmodel_new_bool_var m name)) =
     vars m @ [length (proto_variables (builder m))] \<and>
   variables (snd (mpsolver_num_var s dlb dub name)) =
     variables s @ [length (mp_variables (solver s))] \<and>
   variables (snd (mpsolver_int_var s dlb dub name)) =
     variables s @ [length (mp_variables (solver s))] \<and>
   variables (snd (mpsolver_bool_var s name)) =
     variables s @ [length (mp_variables (solver s))] \<and>
   constraints (snd (mpsolver_add_constraint s dlb dub name)) =
     constraints s @ [length (mp_constraints (solver s))] \<and>
   (cp_later m0 m1 \<longrightarrow>
      length (vars m0) \<le> length (vars m1) \<and> take (length (vars m0)) (vars m1) = vars m0) \<and>
   (mp_later s0 s1 \<longrightarrow>
      (length (variables s0) \<le> length (variables s1) \<and>
       take (length (variables s0)) (variables s1) = variables s0) \<and>
      (length (constraints s0) \<le> length (constraints s1) \<and>
       take (length (constraints s0)) (constraints s1) = constraints s0)) \<and>
   (cp_reachable n m \<longrightarrow> vars m = [0..<n])"
  (is "?numbering \<and> ?rest")
proof
  show ?numbering
    by (rule handles_values)
  show ?rest
  proof (intro conjI impI)
    show "vars (snd (cpmodel_new_int_var m lb ub name)) =
        vars m @ [length (proto_variables (builder m))]"
      by (rule vars_new_int_var)
    show "vars (snd (cpmodel_new_bool_var m name)) =
        vars m @ [length (proto_variables (builder m))]"
      by (rule vars_new_bool_var)
    show "variables (snd (mpsolver_num_var s dlb dub name)) =
        variables s @ [length (mp_variables (solver s))]"
      by (simp add: tables_num_var)
    show "variables (snd (mpsolver_int_var s dlb dub name)) =
        variables s @ [length (mp_variables (solver s))]"
      by (simp add: tables_int_var)
    show "variables (snd (mpsolver_bool_var s name)) =
        variables s @ [length (mp_variables (solver s))]"
      by (simp add: tables_bool_var)
    show "constraints (snd (mpsolver_add_constraint s dlb dub name)) =
        constraints s @ [length (mp_constraints (solver s))]"
      by (simp add: tables_add_constraint)
  next
    assume "cp_later m0 m1"
    from cp_later_prefix [OF this]
    show "length (vars m0) \<le> length (vars m1)"
      and "take (length (vars m0)) (vars m1) = vars m0"
      by simp_all
  next
    assume "mp_later s0 s1"
    from mp_later_prefix [OF this]
    show "length (variables s0) \<le> length (variables s1)"
      and "take (length (variables s0)) (variables s1) = variables s0"
      and "length (constraints s0) \<le> length (constraints s1)"
      and "take (length (constraints s0)) (constraints s1) = constraints s0"
      by simp_all
  next
    assume "cp_reachable n m"
    from cp_reachable_table [OF this] show "vars m = [0..<n]"
      by simp
  qed
qed

theorem handles_sequential_witness:
  "sint (fst (cpmodel_new_int_var two_var_model 0 5 None)) = 2 \<and>
   sint (fst (mpsolver_bool_var (mp_after_num_vars 3) None)) = 3 \<and>
   sint (fst (mpsolver_add_constraint (mp_after_constraints 1) (Finite False 0 0)
     (Finite False 1 0) None)) = 1 \<and>
   take (length (vars (snd (cpmodel_new_int_var CpModelBuilder_init 0 10 (Some ''x'')))))
     (vars two_var_model) = vars (snd (cpmodel_new_int_var CpModelBuilder_init 0 10 (Some ''x''))) \<and>
   take (length (variables (mp_after_num_vars 3)))
     (variables (mpsolver_maximize (snd (mpsolver_add_constraint (mp_after_num_vars 3)
        (Finite False 0 0) (Finite False 1 0) None)))) = variables (mp_after_num_vars 3) \<and>
   vars two_var_model = [0..<2]"
proof -
  let ?m0 = "snd (cpmodel_new_int_var CpModelBuilder_init 0 10 (Some ''x''))"
  let ?s1 = "mpsolver_maximize (snd (mpsolver_add_constraint (mp_after_num_vars 3)
        (Finite False 0 0) (Finite False 1 0) None))"
  have l1: "cp_later ?m0 two_var_model"
    unfolding two_var_model_def by (rule cp_later_bool_var) (rule cp_later_refl)
  have l2: "mp_later (mp_after_num_vars 3) ?s1"
    by (rule mp_later_maximize) (rule mp_later_add_constraint, rule mp_later_refl)
  note T1 = handles_sequential [where n = 2 and m = two_var_model and lb = 0 and ub = 5
        and name = None and nv = 3 and nc = 0 and s = "mp_after_num_vars 3"
        and ?m0.0 = ?m0 and ?m1.0 = two_var_model and ?s0.0 = "mp_after_num_vars 3"
        and ?s1.0 = ?s1]
  note T2 = handles_sequential [where nv = 0 and nc = 1
        and s = "mp_after_constraints 1" and dlb = "Finite False 0 0"
        and dub = "Finite False 1 0" and name = None]
  have a: "sint (fst (cpmodel_new_int_var two_var_model 0 5 None)) = 2"
    and b: "sint (fst (mpsolver_bool_var (mp_after_num_vars 3) None)) = 3"
    using T1 [THEN conjunct1] two_var_model_reachable mp_after_num_vars_reachable [of 3]
    by simp_all
  have c: "sint (fst (mpsolver_add_constraint (mp_after_constraints 1) (Finite False 0 0)
     (Finite False 1 0) None)) = 1"
    using T2 [THEN conjunct1] mp_after_constraints_reachable [of 1]
    by simp
  from T1 [THEN conjunct2] l1
  have d: "take (length (vars ?m0)) (vars two_var_model) = vars ?m0"
    by blast
  from T1 [THEN conjunct2] l2
  have e: "take (length (variables (mp_after_num_vars 3))) (variables ?s1) =
      variables (mp_after_num_vars 3)"
    by blast
  from T1 [THEN conjunct2] two_var_model_reachable
  have f: "vars two_var_model = [0..<2]"
    by blast
  from a b c d e f show ?thesis
    by (intro conjI)
qed

text \<open>
  C2 as stated fails: the handle is the size of the table cast to \<open>int32_t\<close>. After
  \<open>2^31\<close> variable creations on a linear model the next creation returns \<open>-2^31\<close>, not
  \<open>2^31\<close>; after \<open>2^32\<close> it returns \<open>0\<close>, the handle of the first variable.
\<close>

theorem handles_sequential_counterexample:
  "mp_reachable 2147483648 0 (mp_after_num_vars 2147483648) \<and>
   sint (fst (mpsolver_num_var (mp_after_num_vars 2147483648) (Finite False 0 0)
     (Finite False 1 0) None)) = - 2147483648 \<and>
   mp_reachable 4294967296 0 (mp_after_num_vars 4294967296) \<and>
   fst (mpsolver_num_var (mp_after_num_vars 4294967296) (Finite False 0 0) (Finite False 1 0) None)
     = fst (mpsolver_num_var (mp_after_num_vars 0) (Finite False 0 0) (Finite False 1 0) None)"
proof -
  have l: "length (variables (mp_after_num_vars k)) = k" for k
    using mp_reachable_lengths [OF mp_after_num_vars_reachable [of k]] by simp
  have "sint (fst (mpsolver_num_var (mp_after_num_vars 2147483648) (Finite False 0 0)
     (Finite False 1 0) None)) = - 2147483648"
    unfolding fst_num_var l by (rule sint_index_wrap)
  moreover have "fst (mpsolver_num_var (mp_after_num_vars 4294967296) (Finite False 0 0) (Finite False 1 0) None)
     = fst (mpsolver_num_var (mp_after_num_vars 0) (Finite False 0 0) (Finite False 1 0) None)"
    unfolding fst_num_var l by simp
  ultimately show ?thesis
    using mp_after_num_vars_reachable by blast
qed

text \<open>
  C9, as amended. Every handle returned by a variable or constraint creation is
  non-negative as long as fewer than \<open>2^31\<close> creations of that kind were made on the model
  before.
\<close>

theorem handles_nonnegative:
  "(cp_reachable n m \<and> n < 2 ^ 31 \<longrightarrow>
      0 \<le> sint (fst (cpmodel_new_int_var m lb ub name)) \<and>
      0 \<le> sint (fst (cpmodel_new_bool_var m name))) \<and>
   (mp_reachable nv nc s \<and> nv < 2 ^ 31 \<longrightarrow>
      0 \<le> sint (fst (mpsolver_num_var s dlb dub name)) \<and>
      0 \<le> sint (fst (mpsolver_int_var s dlb dub name)) \<and>
      0 \<le> sint (fst (mpsolver_bool_var s name))) \<and>
   (mp_reachable nv nc s \<and> nc < 2 ^ 31 \<longrightarrow>
      0 \<le> sint (fst (mpsolver_add_constraint s dlb dub name)))"
proof (intro conjI impI; elim conjE)
  assume r: "cp_reachable n m" and b: "n < 2 ^ 31"
  have l: "length (vars m) = n" by (rule cp_reachable_length [OF r])
  show "0 \<le> sint (fst (cpmodel_new_int_var m lb ub name))"
    using sint_index_small [OF b] by (simp add: fst_new_int_var l)
  show "0 \<le> sint (fst (cpmodel_new_bool_var m name))"
    using sint_index_small [OF b] by (simp add: fst_new_bool_var l)
next
  assume r: "mp_reachable nv nc s" and b: "nv < 2 ^ 31"
  have l: "length (variables s) = nv" using mp_reachable_lengths [OF r] by simp
  show "0 \<le> sint (fst (mpsolver_num_var s dlb dub name))"
    using sint_index_small [OF b] by (simp add: fst_num_var l)
  show "0 \<le> sint (fst (mpsolver_int_var s dlb dub name))"
    using sint_index_small [OF b] by (simp add: fst_int_var l)
  show "0 \<le> sint (fst (mpsolver_bool_var s name))"
    using sint_index_small [OF b] by (simp add: fst_bool_var l)
next
  assume r: "mp_reachable nv nc s" and b: "nc < 2 ^ 31"
  have l: "length (constraints s) = nc" using mp_reachable_lengths [OF r] by simp
  show "0 \<le> sint (fst (mpsolver_add_constraint s dlb dub name))"
    using sint_index_small [OF b] by (simp add: fst_add_constraint l)
qed

theorem handles_nonnegative_witness:
  "0 \<le> sint (fst (cpmodel_new_bool_var two_var_model (Some ''b''))) \<and>
   0 \<le> sint (fst (mpsolver_num_var (mp_after_num_vars 2) (Finite False 0 0) (Finite False 1 0) (Some ''b''))) \<and>
   0 \<le> sint (fst (mpsolver_add_constraint (mp_after_constraints 4) (Finite False 0 0) (Finite False 1 0) (Some ''b'')))"
  using handles_nonnegative [of 2 two_var_model 0 0 "Some ''b''" 2 0 "mp_after_num_vars 2" "Finite False 0 0" "Finite False 1 0"]
    handles_nonnegative [of 2 two_var_model 0 0 "Some ''b''" 0 4 "mp_after_constraints 4" "Finite False 0 0" "Finite False 1 0"]
    two_var_model_reachable mp_after_num_vars_reachable [of 2] mp_after_constraints_reachable [of 4]
  by simp

text \<open>
  C9 as stated fails: after \<open>2^31\<close> constraint creations on a linear model the next
  \<open>mpsolver_add_constraint\<close> returns a negative handle.
\<close>

theorem handles_nonnegative_counterexample:
  "mp_reachable 0 2147483648 (mp_after_constraints 2147483648) \<and>
   sint (fst (mpsolver_add_constraint (mp_after_constraints 2147483648) (Finite False 0 0)
     (Finite False 1 0) None)) < 0"
proof -
  have l: "length (constraints (mp_after_constraints k)) = k" for k
    using mp_reachable_lengths [OF mp_after_constraints_reachable [of k]] by simp
  have "sint (fst (mpsolver_add_constraint (mp_after_constraints 2147483648) (Finite False 0 0)
     (Finite False 1 0) None)) = - 2147483648"
    unfolding fst_add_constraint l by (rule sint_index_wrap)
  then show ?thesis
    using mp_after_constraints_reachable [of 2147483648] by simp
qed

section \<open>Discrete solve\<close>

lemma double_gt_zero_Finite: "double_gt_zero (Finite s m e) \<longleftrightarrow> 0 < double_real s m e"
proof -
  have p: "0 < (2::real) powi e"
    by (rule zero_less_power_int) simp
  have pos: "0 < real m * 2 powi e \<longleftrightarrow> 0 < m"
    using p by (simp add: zero_less_mult_iff)
  have "0 \<le> real m * 2 powi e"
    by (intro mult_nonneg_nonneg less_imp_le [OF p]) simp
  then have neg: "\<not> 0 < - (real m * 2 powi e)"
    by linarith
  show ?thesis
  proof (cases s)
    case True
    then show ?thesis using neg by (simp add: double_gt_zero_def double_real_def)
  next
    case False
    then show ?thesis using pos by (simp add: double_gt_zero_def double_real_def)
  qed
qed

lemma cpmodel_solve_Inr:
  assumes "object_at (cp_models st) p = Some m"
  shows "cpmodel_solve Solve st p t =
     Inr (length (cp_responses st),
          st\<lparr>cp_responses := cp_responses st @
            [\<lparr>response = Solve (Build (builder m))
                 (if double_gt_zero t then \<lparr>max_time_in_seconds = Some t\<rparr>
                  else \<lparr>max_time_in_seconds = None\<rparr>),
              model = Build (builder m)\<rparr>]\<rparr>)"
  using assms
  by (simp add: cpmodel_solve_def Let_def SatParameters_init_def set_max_time_in_seconds_def)

lemma cpmodel_solve_Inr_iff:
  "(\<exists>r st'. cpmodel_solve Solve st p t = Inr (r, st')) \<longleftrightarrow> p < length (cp_models st)"
  by (auto simp: cpmodel_solve_def Let_def object_at_def split: option.splits if_splits)

lemma cpmodel_solve_frame:
  assumes "cpmodel_solve Solve st p t = Inr (r, st')"
  shows "cp_models st' = cp_models st \<and> r = length (cp_responses st) \<and>
         (\<exists>m params. object_at (cp_models st) p = Some m \<and>
            cp_responses st' = cp_responses st @
              [\<lparr>response = Solve (Build (builder m)) params, model = Build (builder m)\<rparr>])"
proof -
  from assms obtain m where m: "object_at (cp_models st) p = Some m"
    by (auto simp: cpmodel_solve_def split: option.splits)
  show ?thesis
    using assms unfolding cpmodel_solve_Inr [OF m] using m by auto
qed

lemma call_on_model_Inr:
  assumes "call_on_model st p f = Inr st'"
  shows "\<exists>m m'. object_at (cp_models st) p = Some m \<and> f m = Inr m' \<and>
            st' = st\<lparr>cp_models := (cp_models st)[p := m']\<rparr>"
  using assms
  by (auto simp: call_on_model_def split: option.splits sum.splits)

lemma example_store_model: "object_at (cp_models example_store) 0 = Some two_var_model"
  by (simp add: example_store_def object_at_def)

text \<open>
  C5. \<open>cpmodel_solve\<close> hands the engine parameters in which a wall-clock cutoff is set
  if and only if \<open>time_limit_seconds > 0\<close> (then it is that value); for every other
  value (zero, negative, NaN) the parameters are the defaults, which set no cutoff. For a
  finite double, \<open>> 0\<close> is the strict positivity of the number it stands for
  (\<open>double_gt_zero_Finite\<close>).
\<close>

theorem solve_time_limit:
  assumes "object_at (cp_models st) p = Some m"
  shows "\<exists>params.
     (max_time_in_seconds params \<noteq> None \<longleftrightarrow> double_gt_zero t) \<and>
     (double_gt_zero t \<longrightarrow> max_time_in_seconds params = Some t) \<and>
     (\<not> double_gt_zero t \<longrightarrow> params = SatParameters_init) \<and>
     (\<forall>Solve. \<exists>r st'. cpmodel_solve Solve st p t = Inr (r, st') \<and>
        object_at (cp_responses st') r =
          Some \<lparr>response = Solve (Build (builder m)) params, model = Build (builder m)\<rparr>)"
proof -
  let ?params = "if double_gt_zero t then \<lparr>max_time_in_seconds = Some t\<rparr>
                  else \<lparr>max_time_in_seconds = None\<rparr>"
  have "\<forall>Solve. \<exists>r st'. cpmodel_solve Solve st p t = Inr (r, st') \<and>
        object_at (cp_responses st') r =
          Some \<lparr>response = Solve (Build (builder m)) ?params, model = Build (builder m)\<rparr>"
    by (simp add: cpmodel_solve_Inr [OF assms] object_at_def)
  moreover have "(max_time_in_seconds ?params \<noteq> None \<longleftrightarrow> double_gt_zero t) \<and>
     (double_gt_zero t \<longrightarrow> max_time_in_seconds ?params = Some t) \<and>
     (\<not> double_gt_zero t \<longrightarrow> ?params = SatParameters_init)"
    by (simp add: SatParameters_init_def)
  ultimately show ?thesis by blast
qed

theorem solve_time_limit_witness:
  "\<exists>params.
     max_time_in_seconds params = None \<and>
     (\<exists>r st'. cpmodel_solve example_engine example_store 0 (Finite True 5 0) = Inr (r, st') \<and>
        object_at (cp_responses st') r =
          Some \<lparr>response = example_engine (Build (builder two_var_model)) params,
                model = Build (builder two_var_model)\<rparr>)"
proof -
  have ng: "\<not> double_gt_zero (Finite True 5 0)"
    by (simp add: double_gt_zero_def)
  from solve_time_limit [OF example_store_model, of "Finite True 5 0"]
  obtain params where a: "max_time_in_seconds params \<noteq> None \<longleftrightarrow> double_gt_zero (Finite True 5 0)"
    and c: "\<forall>Solve. \<exists>r st'. cpmodel_solve Solve example_store 0 (Finite True 5 0) = Inr (r, st') \<and>
        object_at (cp_responses st') r =
          Some \<lparr>response = Solve (Build (builder two_var_model)) params,
                model = Build (builder two_var_model)\<rparr>"
    by blast
  from a ng have "max_time_in_seconds params = None" by simp
  moreover from c have "\<exists>r st'. cpmodel_solve example_engine example_store 0 (Finite True 5 0) = Inr (r, st') \<and>
        object_at (cp_responses st') r =
          Some \<lparr>response = example_engine (Build (builder two_var_model)) params,
                model = Build (builder two_var_model)\<rparr>"
    by (rule spec)
  ultimately show ?thesis by blast
qed

lemma solve_twice_frame:
  assumes "cpmodel_solve Solve st p t1 = Inr (r1, st1)"
    and "call_on_model st1 p f = Inr st2"
    and "cpmodel_solve Solve st2 p t2 = Inr (r2, st3)"
  shows "cp_models st1 = cp_models st \<and>
     cp_models st3 = cp_models st2 \<and>
     object_at (cp_responses st) r1 = None \<and>
     (\<exists>m params. object_at (cp_models st) p = Some m \<and>
        object_at (cp_responses st1) r1 =
          Some \<lparr>response = Solve (Build (builder m)) params, model = Build (builder m)\<rparr>) \<and>
     (\<forall>a < length (cp_responses st).
        object_at (cp_responses st1) a = object_at (cp_responses st) a) \<and>
     r2 \<noteq> r1 \<and>
     object_at (cp_responses st3) r1 = object_at (cp_responses st1) r1 \<and>
     (\<exists>st2' r2' st3'.
        call_on_model st p f = Inr st2' \<and>
        cpmodel_solve Solve st2' p t2 = Inr (r2', st3') \<and>
        object_at (cp_responses st3') r2' = object_at (cp_responses st3) r2)"
proof -
  from cpmodel_solve_frame [OF assms(1)]
  obtain m params where ms: "cp_models st1 = cp_models st" and r1: "r1 = length (cp_responses st)"
    and m: "object_at (cp_models st) p = Some m"
    and rs1: "cp_responses st1 = cp_responses st @
              [\<lparr>response = Solve (Build (builder m)) params, model = Build (builder m)\<rparr>]"
    by blast
  from call_on_model_Inr [OF assms(2)] m ms
  obtain m' where fm: "f m = Inr m'" and st2: "st2 = st1\<lparr>cp_models := (cp_models st1)[p := m']\<rparr>"
    by auto
  have plen: "p < length (cp_models st)"
    using m by (simp add: object_at_def split: if_splits)
  have m2: "object_at (cp_models st2) p = Some m'"
    using plen by (simp add: st2 ms object_at_def)
  define R2 where "R2 = \<lparr>response = Solve (Build (builder m'))
                 (if double_gt_zero t2 then \<lparr>max_time_in_seconds = Some t2\<rparr>
                  else \<lparr>max_time_in_seconds = None\<rparr>),
              model = Build (builder m')\<rparr>"
  have "cpmodel_solve Solve st2 p t2 =
      Inr (length (cp_responses st2), st2\<lparr>cp_responses := cp_responses st2 @ [R2]\<rparr>)"
    unfolding R2_def by (rule cpmodel_solve_Inr [OF m2])
  with assms(3) have r2: "r2 = length (cp_responses st2)"
    and st3: "st3 = st2\<lparr>cp_responses := cp_responses st2 @ [R2]\<rparr>"
    by simp_all
  have rs2: "cp_responses st2 = cp_responses st1"
    by (simp add: st2)
  have ms3: "cp_models st3 = cp_models st2"
    by (simp add: st3)
  let ?st2' = "st\<lparr>cp_models := (cp_models st)[p := m']\<rparr>"
  let ?st3' = "?st2'\<lparr>cp_responses := cp_responses ?st2' @ [R2]\<rparr>"
  have c2': "call_on_model st p f = Inr ?st2'"
    by (simp add: call_on_model_def m fm)
  have m2': "object_at (cp_models ?st2') p = Some m'"
    using plen by (simp add: object_at_def)
  have s2': "cpmodel_solve Solve ?st2' p t2 = Inr (length (cp_responses ?st2'), ?st3')"
    unfolding R2_def by (rule cpmodel_solve_Inr [OF m2'])
  have same: "object_at (cp_responses ?st3') (length (cp_responses ?st2')) =
      object_at (cp_responses st3) r2"
    by (simp add: object_at_def st3 r2)
  have "object_at (cp_responses st) r1 = None"
    by (simp add: r1 object_at_def)
  moreover have "object_at (cp_responses st1) r1 =
          Some \<lparr>response = Solve (Build (builder m)) params, model = Build (builder m)\<rparr>"
    by (simp add: r1 rs1 object_at_def)
  moreover have "\<forall>a < length (cp_responses st).
        object_at (cp_responses st1) a = object_at (cp_responses st) a"
    by (simp add: rs1 object_at_def nth_append)
  moreover have "r2 \<noteq> r1"
    by (simp add: r1 r2 rs2 rs1)
  moreover have "object_at (cp_responses st3) r1 = object_at (cp_responses st1) r1"
    by (simp add: object_at_def st3 rs2 rs1 r1 nth_append)
  moreover have "\<exists>st2' r2' st3'.
        call_on_model st p f = Inr st2' \<and>
        cpmodel_solve Solve st2' p t2 = Inr (r2', st3') \<and>
        object_at (cp_responses st3') r2' = object_at (cp_responses st3) r2"
    using c2' s2' same by blast
  ultimately show ?thesis
    using ms ms3 m by blast
qed

text \<open>
  C6. For a valid builder pointer, \<open>cpmodel_solve\<close> returns a pointer to a new result
  object, which holds the compiled model and the engine's response, and leaves every
  builder of the store and every earlier result as it was. When the builder is then
  changed through its pointer (for instance by adding a constraint) and solved again, the
  second solve returns too, its result is a different object, the first result is
  unchanged, and the second result is the one that the same calls produce when the first
  solve never happened.
\<close>

theorem solve_result_is_independent:
  assumes "object_at (cp_models st) p = Some m" and "f m = Inr m'"
  shows "\<exists>r1 st1 st2 r2 st3.
     cpmodel_solve Solve st p t1 = Inr (r1, st1) \<and>
     call_on_model st1 p f = Inr st2 \<and>
     cpmodel_solve Solve st2 p t2 = Inr (r2, st3) \<and>
     cp_models st1 = cp_models st \<and>
     cp_models st3 = cp_models st2 \<and>
     object_at (cp_responses st) r1 = None \<and>
     (\<exists>params. object_at (cp_responses st1) r1 =
        Some \<lparr>response = Solve (Build (builder m)) params, model = Build (builder m)\<rparr>) \<and>
     (\<forall>a < length (cp_responses st).
        object_at (cp_responses st1) a = object_at (cp_responses st) a) \<and>
     r2 \<noteq> r1 \<and>
     object_at (cp_responses st3) r1 = object_at (cp_responses st1) r1 \<and>
     (\<exists>st2' r2' st3'.
        call_on_model st p f = Inr st2' \<and>
        cpmodel_solve Solve st2' p t2 = Inr (r2', st3') \<and>
        object_at (cp_responses st3') r2' = object_at (cp_responses st3) r2)"
proof -
  obtain r1 st1 where h1: "cpmodel_solve Solve st p t1 = Inr (r1, st1)"
    using cpmodel_solve_Inr [OF assms(1)] by blast
  have ms: "cp_models st1 = cp_models st"
    using cpmodel_solve_frame [OF h1] by blast
  have plen: "p < length (cp_models st)"
    using assms(1) by (simp add: object_at_def split: if_splits)
  let ?st2 = "st1\<lparr>cp_models := (cp_models st1)[p := m']\<rparr>"
  have h2: "call_on_model st1 p f = Inr ?st2"
    using assms by (simp add: call_on_model_def ms)
  have "object_at (cp_models ?st2) p = Some m'"
    using plen by (simp add: ms object_at_def)
  then obtain r2 st3 where h3: "cpmodel_solve Solve ?st2 p t2 = Inr (r2, st3)"
    using cpmodel_solve_Inr by blast
  have m_eq: "m0 = m" if "object_at (cp_models st) p = Some m0" for m0
    using that assms(1) by simp
  from solve_twice_frame [OF h1 h2 h3]
  have "cp_models st1 = cp_models st \<and>
     cp_models st3 = cp_models ?st2 \<and>
     object_at (cp_responses st) r1 = None \<and>
     (\<exists>params. object_at (cp_responses st1) r1 =
        Some \<lparr>response = Solve (Build (builder m)) params, model = Build (builder m)\<rparr>) \<and>
     (\<forall>a < length (cp_responses st).
        object_at (cp_responses st1) a = object_at (cp_responses st) a) \<and>
     r2 \<noteq> r1 \<and>
     object_at (cp_responses st3) r1 = object_at (cp_responses st1) r1 \<and>
     (\<exists>st2' r2' st3'.
        call_on_model st p f = Inr st2' \<and>
        cpmodel_solve Solve st2' p t2 = Inr (r2', st3') \<and>
        object_at (cp_responses st3') r2' = object_at (cp_responses st3) r2)"
    using m_eq by blast
  with h1 h2 h3 show ?thesis
    by blast
qed

theorem solve_result_is_independent_witness:
  "\<exists>r1 st1 st2 r2 st3.
     cpmodel_solve example_engine example_store 0 (Finite False 0 0) = Inr (r1, st1) \<and>
     call_on_model st1 0 (\<lambda>b. cpmodel_add_linear_ge b [1] [1] 1 1) = Inr st2 \<and>
     cpmodel_solve example_engine st2 0 (Finite False 3 0) = Inr (r2, st3) \<and>
     cp_models st1 = cp_models example_store \<and>
     object_at (cp_responses example_store) r1 = None \<and>
     r2 \<noteq> r1 \<and>
     object_at (cp_responses st3) r1 = object_at (cp_responses st1) r1"
proof -
  have "build_linear_expr two_var_model [1] [1] 1 =
     Inr \<lparr>expr_terms = map (\<lambda>k. (vars two_var_model ! nat (sint ([1 :: int32_t] ! k)),
                                   [1 :: int64_t] ! k)) [0..<1],
          expr_constant = 0\<rparr>"
    by (rule build_linear_expr_valid) (simp_all add: vars_two_var_model)
  then obtain m' where fm: "cpmodel_add_linear_ge two_var_model [1] [1] 1 1 = Inr m'"
    by (simp add: cpmodel_add_linear_ge_def)
  from solve_result_is_independent
    [of example_store 0 two_var_model "\<lambda>b. cpmodel_add_linear_ge b [1] [1] 1 1" m'
       example_engine "Finite False 0 0" "Finite False 3 0", OF example_store_model fm]
  show ?thesis by blast
qed

section \<open>Objective value of a discrete result\<close>

lemma double_trunc_is_truncation:
  "double_trunc s m e = (if s then - \<lfloor>\<bar>double_real s m e\<bar>\<rfloor> else \<lfloor>\<bar>double_real s m e\<bar>\<rfloor>)"
proof -
  have p: "0 < (2::real) powi e"
    by (rule zero_less_power_int) simp
  have a: "\<bar>double_real b m e\<bar> = real m * 2 powi e" for b
    using p by (simp add: double_real_def abs_mult)
  have "\<lfloor>real m * 2 powi e\<rfloor> = (if 0 \<le> e then int m * 2 ^ nat e else int m div 2 ^ nat (- e))"
  proof (cases "0 \<le> e")
    case True
    have "real m * 2 powi e = of_int (int m * 2 ^ nat e)"
      using True by (simp add: power_int_def)
    then show ?thesis
      using True by (simp only: floor_of_int if_True)
  next
    case False
    have "real m * 2 powi e = of_int (int m) / of_int (2 ^ nat (- e))"
      using False by (simp add: power_int_def field_simps)
    then show ?thesis
      using False by (simp only: floor_divide_of_int_eq if_False)
  qed
  then show ?thesis
    by (simp add: a double_trunc_def Let_def)
qed

lemma double_real_sign:
  "(s \<longrightarrow> double_real s m e \<le> 0) \<and> (\<not> s \<longrightarrow> 0 \<le> double_real s m e)"
proof -
  have p: "0 < (2::real) powi e"
    by (rule zero_less_power_int) simp
  have "0 \<le> real m * 2 powi e"
    by (intro mult_nonneg_nonneg less_imp_le [OF p]) simp
  then show ?thesis
    by (simp add: double_real_def)
qed

lemma int64_of_double_integer:
  assumes "double_real s m e = of_int k" and "k = sint obj"
  shows "int64_of_double (Finite s m e) = Inr (obj :: int64_t)"
proof -
  have fl: "\<lfloor>\<bar>double_real s m e\<bar>\<rfloor> = \<bar>k\<bar>"
  proof -
    have "\<bar>double_real s m e\<bar> = of_int \<bar>k\<bar>"
      by (simp add: assms(1))
    then show ?thesis
      by (simp only: floor_of_int)
  qed
  have "(s \<longrightarrow> (of_int k :: real) \<le> 0) \<and> (\<not> s \<longrightarrow> (0 :: real) \<le> of_int k)"
    using double_real_sign [of s m e] unfolding assms(1) .
  then have sg: "(s \<longrightarrow> k \<le> 0) \<and> (\<not> s \<longrightarrow> 0 \<le> k)"
    by simp
  have v: "double_trunc s m e = k"
  proof (cases s)
    case True
    then have "double_trunc s m e = - \<lfloor>\<bar>double_real s m e\<bar>\<rfloor>"
      by (simp only: double_trunc_is_truncation if_True)
    moreover have "k \<le> 0"
      using sg True by blast
    ultimately show ?thesis
      using fl by linarith
  next
    case False
    then have "double_trunc s m e = \<lfloor>\<bar>double_real s m e\<bar>\<rfloor>"
      by (simp only: double_trunc_is_truncation if_False)
    moreover have "0 \<le> k"
      using sg False by blast
    ultimately show ?thesis
      using fl by linarith
  qed
  have "- (2 ^ 63) \<le> k" "k < 2 ^ 63"
    using sint_ge [of obj] sint_lt [of obj] by (simp_all add: assms(2))
  then show ?thesis
    by (simp add: int64_of_double_def v assms(2))
qed

lemma small_integer_is_binary64:
  assumes "- (2 ^ 53) \<le> k" and "k \<le> 2 ^ 53"
  shows "\<exists>s m e. is_binary64 (Finite s m e) \<and> double_real s m e = of_int k"
proof (cases "\<bar>k\<bar> < 2 ^ 53")
  case True
  then have "nat \<bar>k\<bar> < 2 ^ 53"
    by (simp add: nat_less_iff)
  then have "is_binary64 (Finite (k < 0) (nat \<bar>k\<bar>) 0)"
    by (simp add: is_binary64_def)
  moreover have "double_real (k < 0) (nat \<bar>k\<bar>) 0 = of_int k"
    by (simp add: double_real_def)
  ultimately show ?thesis by blast
next
  case False
  then have eq: "\<bar>k\<bar> = 2 ^ 53"
    using assms by linarith
  have "is_binary64 (Finite (k < 0) (2 ^ 52) 1)"
    by (simp add: is_binary64_def)
  moreover have "double_real (k < 0) (2 ^ 52) 1 = of_int k"
  proof (cases "k < 0")
    case True
    with eq have "k = - (2 ^ 53)" by simp
    then show ?thesis by (simp add: double_real_def)
  next
    case False
    with eq have "k = 2 ^ 53" by simp
    then show ?thesis by (simp add: double_real_def)
  qed
  ultimately show ?thesis by blast
qed

lemma int64_of_double_never_2_53_1:
  assumes "is_binary64 d"
  shows "int64_of_double d \<noteq> Inr 9007199254740993"
proof
  assume r: "int64_of_double d = Inr 9007199254740993"
  then obtain s m e where d: "d = Finite s m e"
    by (cases d) (simp_all add: int64_of_double_def)
  from assms d have m: "m < 2 ^ 53"
    by (simp add: is_binary64_def)
  let ?v = "double_trunc s m e"
  from r d have rng: "- (2 ^ 63) \<le> ?v" "?v < 2 ^ 63"
    and w: "(word_of_int ?v :: int64_t) = 9007199254740993"
    by (simp_all add: int64_of_double_def Let_def split: if_splits)
  have "sint (word_of_int ?v :: int64_t) = ?v"
    using signed_take_bit_int_eq_self [of 63 ?v] rng by (simp add: signed_of_int)
  then have v: "?v = 9007199254740993"
    by (simp add: w)
  from m have "int m < int (2 ^ 53)"
    by (simp only: of_nat_less_iff)
  then have mi: "int m < 9007199254740992"
    by simp
  show False
  proof (cases "0 < e")
    case True
    then have "even (int m * 2 ^ nat e)"
      by simp
    moreover have "?v = (if s then - (int m * 2 ^ nat e) else int m * 2 ^ nat e)"
      using True by (simp add: double_trunc_def)
    ultimately have "even ?v"
      by simp
    then show False
      by (simp add: v)
  next
    case False
    have le: "(if 0 \<le> e then int m * 2 ^ nat e else int m div 2 ^ nat (- e)) \<le> int m"
    proof (cases "e = 0")
      case True
      then show ?thesis by simp
    next
      case False
      with \<open>\<not> 0 < e\<close> have "e < 0" by simp
      moreover have "int m div 2 ^ nat (- e) = int (m div 2 ^ nat (- e))"
        by (simp add: zdiv_int)
      then have "int m div 2 ^ nat (- e) \<le> int m"
        by (simp only: of_nat_le_iff div_le_dividend)
      ultimately show ?thesis by simp
    qed
    have ge: "0 \<le> (if 0 \<le> e then int m * 2 ^ nat e else int m div 2 ^ nat (- e))"
      by (simp add: pos_imp_zdiv_nonneg_iff)
    have "?v \<le> int m"
      unfolding double_trunc_def Let_def using le ge by (cases s) simp_all
    then show False
      using v mi by simp
  qed
qed

text \<open>
  C7, as amended. Whatever the status of the result, when the double that the engine
  reports as objective value denotes the integer objective exactly,
  \<open>cpresponse_objective_value\<close> returns that objective; and every integer of magnitude at
  most \<open>2^53\<close> is denoted exactly by a binary64 value.
\<close>

theorem objective_value_exact_when_double_exact:
  "(objective_value (response r) = Finite s m e \<and> double_real s m e = of_int (sint obj)
      \<longrightarrow> cpresponse_objective_value r = Inr obj) \<and>
   (- (2 ^ 53) \<le> sint obj \<and> sint obj \<le> 2 ^ 53 \<longrightarrow>
      (\<exists>s m e. is_binary64 (Finite s m e) \<and> double_real s m e = of_int (sint obj)))"
proof (intro conjI impI; elim conjE)
  assume a: "objective_value (response r) = Finite s m e"
    and b: "double_real s m e = of_int (sint obj)"
  have "int64_of_double (Finite s m e) = Inr obj"
    by (rule int64_of_double_integer [OF b refl])
  then show "cpresponse_objective_value r = Inr obj"
    by (simp add: cpresponse_objective_value_def a)
next
  assume "- (2 ^ 53) \<le> sint obj" and "sint obj \<le> 2 ^ 53"
  then show "\<exists>s m e. is_binary64 (Finite s m e) \<and> double_real s m e = of_int (sint obj)"
    by (rule small_integer_is_binary64)
qed

theorem objective_value_exact_when_double_exact_witness:
  "cpresponse_objective_value
      (response_with_double CpSolverStatus_OPTIMAL (Finite True (2 ^ 52) 1))
     = Inr (- 9007199254740992) \<and>
   (\<exists>s m e. is_binary64 (Finite s m e) \<and>
      double_real s m e = of_int (sint (- 9007199254740992 :: int64_t)))"
proof -
  have sv: "sint (- 9007199254740992 :: int64_t) = - 9007199254740992"
    by simp
  have h1: "objective_value (response (response_with_double CpSolverStatus_OPTIMAL
      (Finite True (2 ^ 52) 1))) = Finite True (2 ^ 52) 1"
    by (simp add: response_with_double_def)
  have h2: "double_real True (2 ^ 52) 1 = of_int (sint (- 9007199254740992 :: int64_t))"
    by (simp add: sv double_real_def)
  have h3: "- (2 ^ 53) \<le> sint (- 9007199254740992 :: int64_t)"
    and h4: "sint (- 9007199254740992 :: int64_t) \<le> 2 ^ 53"
    by (simp_all add: sv)
  note T = objective_value_exact_when_double_exact
    [where r = "response_with_double CpSolverStatus_OPTIMAL (Finite True (2 ^ 52) 1)"
       and s = True and m = "2 ^ 52" and e = 1 and obj = "- 9007199254740992"]
  from T [THEN conjunct1] h1 h2
  have a: "cpresponse_objective_value
      (response_with_double CpSolverStatus_OPTIMAL (Finite True (2 ^ 52) 1))
     = Inr (- 9007199254740992)"
    by blast
  from T [THEN conjunct2] h3 h4
  have b: "\<exists>s m e. is_binary64 (Finite s m e) \<and>
      double_real s m e = of_int (sint (- 9007199254740992 :: int64_t))"
    by blast
  from a b show ?thesis by (rule conjI)
qed

text \<open>
  C7 as stated fails: no binary64 value makes the accessor return \<open>2^53 + 1\<close>, so for
  an OPTIMAL result whose objective is \<open>2^53 + 1\<close> the returned integer is not the
  objective, whatever double the engine reports; at the nearest double, \<open>2^53\<close>, the
  accessor returns \<open>2^53\<close>.
\<close>

theorem objective_value_exact_counterexample:
  "cpresponse_status (response_with_double CpSolverStatus_OPTIMAL (Finite False (2 ^ 52) 1))
     = ORTOOLS_STATUS_OPTIMAL \<and>
   cpresponse_objective_value (response_with_double CpSolverStatus_OPTIMAL (Finite False (2 ^ 52) 1))
     = Inr 9007199254740992 \<and>
   \<not> (\<exists>d. is_binary64 d \<and>
          cpresponse_objective_value (response_with_double CpSolverStatus_OPTIMAL d)
            = Inr 9007199254740993)"
proof -
  have "int64_of_double (Finite False (2 ^ 52) 1) = Inr (9007199254740992 :: int64_t)"
    by (simp add: int64_of_double_def double_trunc_def)
  moreover have "cpresponse_objective_value (response_with_double CpSolverStatus_OPTIMAL d)
      = int64_of_double d" for d
    by (simp add: cpresponse_objective_value_def response_with_double_def)
  moreover have "cpresponse_status (response_with_double CpSolverStatus_OPTIMAL d)
      = ORTOOLS_STATUS_OPTIMAL" for d
    by (simp add: cpresponse_status_def response_with_double_def convert_cp_status_def
        native_status_defs)
  ultimately show ?thesis
    using int64_of_double_never_2_53_1 by auto
qed

section \<open>Linear solver construction and names\<close>

text \<open>
  C8. \<open>mpsolver_new\<close> selects GLOP, CLP, CBC and SCIP for the four selectors of
  wrapper.h and GLOP for every other selector value; it has no failing branch and returns a
  solver with empty index tables.
\<close>

theorem mpsolver_new_backend:
  "(solver_type = ORTOOLS_LP_GLOP \<longrightarrow>
      mp_problem_type (solver (mpsolver_new name solver_type)) = GLOP_LINEAR_PROGRAMMING) \<and>
   (solver_type = ORTOOLS_LP_CLP \<longrightarrow>
      mp_problem_type (solver (mpsolver_new name solver_type)) = CLP_LINEAR_PROGRAMMING) \<and>
   (solver_type = ORTOOLS_MIP_CBC \<longrightarrow>
      mp_problem_type (solver (mpsolver_new name solver_type)) = CBC_MIXED_INTEGER_PROGRAMMING) \<and>
   (solver_type = ORTOOLS_MIP_SCIP \<longrightarrow>
      mp_problem_type (solver (mpsolver_new name solver_type)) = SCIP_MIXED_INTEGER_PROGRAMMING) \<and>
   (solver_type \<notin> {ORTOOLS_LP_GLOP, ORTOOLS_LP_CLP, ORTOOLS_MIP_CBC, ORTOOLS_MIP_SCIP} \<longrightarrow>
      mp_problem_type (solver (mpsolver_new name solver_type)) = GLOP_LINEAR_PROGRAMMING) \<and>
   mp_variables (solver (mpsolver_new name solver_type)) = [] \<and>
   mp_constraints (solver (mpsolver_new name solver_type)) = [] \<and>
   variables (mpsolver_new name solver_type) = [] \<and>
   constraints (mpsolver_new name solver_type) = []"
  by (simp add: mpsolver_new_def MPSolver_init_def ORTOOLS_LP_GLOP_def ORTOOLS_LP_CLP_def
      ORTOOLS_MIP_CBC_def ORTOOLS_MIP_SCIP_def)

theorem mpsolver_new_backend_witness:
  "mp_problem_type (solver (mpsolver_new None 7)) = GLOP_LINEAR_PROGRAMMING \<and>
   mp_problem_type (solver (mpsolver_new None (- 1))) = GLOP_LINEAR_PROGRAMMING \<and>
   mp_problem_type (solver (mpsolver_new (Some ''lp'') ORTOOLS_MIP_CBC)) = CBC_MIXED_INTEGER_PROGRAMMING"
  using mpsolver_new_backend [of 7 None] mpsolver_new_backend [of "- 1" None]
    mpsolver_new_backend [of ORTOOLS_MIP_CBC "Some ''lp''"]
  by (simp add: ORTOOLS_LP_GLOP_def ORTOOLS_LP_CLP_def ORTOOLS_MIP_CBC_def ORTOOLS_MIP_SCIP_def)

text \<open>
  C10. A null name is never read. Discrete variable creation with a null name does what
  it does with the empty string and leaves the variable without a name; linear variable
  and constraint creation hand the engine the empty string for a null name; and
  \<open>mpsolver_new\<close> names the solver \<open>solver\<close> when the name is null.
\<close>

theorem null_name_is_safe:
  "cpmodel_new_int_var mdl lb ub None = cpmodel_new_int_var mdl lb ub (Some []) \<and>
   var_name (last (proto_variables (builder (snd (cpmodel_new_int_var mdl lb ub None))))) = [] \<and>
   cpmodel_new_bool_var mdl None = cpmodel_new_bool_var mdl (Some []) \<and>
   var_name (last (proto_variables (builder (snd (cpmodel_new_bool_var mdl None))))) = [] \<and>
   mpsolver_num_var s dlb dub None = mpsolver_num_var s dlb dub (Some []) \<and>
   mpvar_name (last (mp_variables (solver (snd (mpsolver_num_var s dlb dub None))))) = [] \<and>
   mpsolver_int_var s dlb dub None = mpsolver_int_var s dlb dub (Some []) \<and>
   mpvar_name (last (mp_variables (solver (snd (mpsolver_int_var s dlb dub None))))) = [] \<and>
   mpsolver_bool_var s None = mpsolver_bool_var s (Some []) \<and>
   mpvar_name (last (mp_variables (solver (snd (mpsolver_bool_var s None))))) = [] \<and>
   mpsolver_add_constraint s dlb dub None = mpsolver_add_constraint s dlb dub (Some []) \<and>
   row_name (last (mp_constraints (solver (snd (mpsolver_add_constraint s dlb dub None))))) = [] \<and>
   mp_name (solver (mpsolver_new None solver_type)) = ''solver''"
  by (simp add: cpmodel_new_int_var_def cpmodel_new_bool_var_def NewIntVar_def NewBoolVar_def
      mpsolver_num_var_def mpsolver_int_var_def mpsolver_bool_var_def mpsolver_add_constraint_def
      MakeNumVar_def MakeIntVar_def MakeBoolVar_def MakeVar_def MakeRowConstraint_def
      mpsolver_new_def MPSolver_init_def)

end
